theory Spec2Isabelle
  imports Main "HOL-Library.AList"
begin

section \<open>Data model\<close>

text \<open>
  The repository holds the task manager twice: the bundle \<^verbatim>\<open>index.esm.mjs\<close> and the
  rollup input \<^verbatim>\<open>src/task.js\<close>. The two differ in \<^verbatim>\<open>_scheduleTask\<close> only (and in
  console output, which is not part of the registry's state and is left out).
\<close>

datatype build = EsmBundle | TaskJs

text \<open>
  The numbers the scheduler computes with are whole milliseconds, or NaN. A difference
  with NaN is NaN, and every comparison with NaN is false.
\<close>

datatype number = Num int | NaN

fun sub :: "number \<Rightarrow> number \<Rightarrow> number" where
  "sub (Num a) (Num b) = Num (a - b)"
| "sub _ _ = NaN"

fun gt0 :: "number \<Rightarrow> bool" where
  "gt0 (Num a) = (a > 0)"
| "gt0 NaN = False"

text \<open>
  A \<^verbatim>\<open>Date\<close> holds a time value in milliseconds, or is the invalid date, whose
  \<^verbatim>\<open>getTime()\<close> is NaN.
\<close>

datatype date = Date int | InvalidDate

fun getTime :: "date \<Rightarrow> number" where
  "getTime (Date ms) = Num ms"
| "getTime InvalidDate = NaN"

text \<open>
  A callback is opaque to the registry: all that \<^verbatim>\<open>task.callback()\<close> shows of it
  is whether the call returns or raises. A value that is no function raises a TypeError
  without running anything. A callback that itself calls a method of the manager is
  outside this model.
\<close>

datatype callback = Returns | Throws | NotAFunction

datatype error = CallbackError | TypeError

datatype 'a result = Return 'a | Throw error

record task =
  id_task :: nat
  targetTime :: date
  callback :: callback
  timeoutId :: "nat option"

text \<open>
  A pending timer of the host: its handle, the task id its closure
  \<^verbatim>\<open>() => this._executeTask(task.id)\<close> passes on, and the delay it was armed with.
\<close>

record timer =
  handle :: nat
  fires :: nat
  delay :: number

text \<open>
  One entry of the log of callback invocations: the task whose callback ran, the keys the
  map held while it ran, and whether the call returned.
\<close>

record invocation =
  callee :: nat
  present :: "nat list"
  returned :: bool

text \<open>
  The manager's fields \<open>tasks\<close> (a \<^verbatim>\<open>Map\<close>, which iterates in insertion order) and
  \<open>nextTaskId\<close>, the host's pending timers, and the log of invocations, oldest first.
  The counter is an unbounded natural number; the source's number is exact below \<open>2^53\<close>.
\<close>

record state =
  tasks :: "(nat \<times> task) list"
  nextTaskId :: nat
  timers :: "timer list"
  nextTimer :: nat
  calls :: "invocation list"

definition constructor :: state where
  "constructor = \<lparr>tasks = [], nextTaskId = 1, timers = [], nextTimer = 1, calls = []\<rparr>"

section \<open>The host's timer facility\<close>

text \<open>
  Modelled from the spec: the single-shot timer facility of section 6 (\<^verbatim>\<open>setTimeout\<close> and
  \<^verbatim>\<open>clearTimeout\<close> of the JavaScript host). Arming returns a fresh handle and
  registers one pending timer.
\<close>

definition setTimeout :: "nat \<Rightarrow> number \<Rightarrow> state \<Rightarrow> nat \<times> state" where
  "setTimeout taskId ms st =
     (nextTimer st,
      st\<lparr>timers := timers st @ [\<lparr>handle = nextTimer st, fires = taskId, delay = ms\<rparr>],
         nextTimer := nextTimer st + 1\<rparr>)"

text \<open>
  Modelled from the spec: disarming is safe on a handle that already fired or was already
  disarmed, and on \<^verbatim>\<open>null\<close>.
\<close>

definition clearTimeout :: "nat option \<Rightarrow> state \<Rightarrow> state" where
  "clearTimeout h st =
     (case h of
        None \<Rightarrow> st
      | Some n \<Rightarrow> st\<lparr>timers := filter (\<lambda>t. handle t \<noteq> n) (timers st)\<rparr>)"

section \<open>The task manager\<close>

text \<open>\<^verbatim>\<open>task.callback()\<close>: a call that runs the callback is logged.\<close>

definition logged :: "nat \<Rightarrow> bool \<Rightarrow> state \<Rightarrow> state" where
  "logged taskId ok st =
     st\<lparr>calls := calls st @ [\<lparr>callee = taskId, present = map fst (tasks st), returned = ok\<rparr>]\<rparr>"

definition call :: "nat \<Rightarrow> callback \<Rightarrow> state \<Rightarrow> unit result \<times> state" where
  "call taskId cb st =
     (case cb of
        NotAFunction \<Rightarrow> (Throw TypeError, st)
      | Throws \<Rightarrow> (Throw CallbackError, logged taskId False st)
      | Returns \<Rightarrow> (Return (), logged taskId True st))"

text \<open>
  Task objects are shared by reference between the map and the local variable \<^verbatim>\<open>task\<close>:
  an assignment to a field of the object stored under key \<open>ref\<close> changes the map's entry.
\<close>

definition assign :: "nat \<Rightarrow> (task \<Rightarrow> task) \<Rightarrow> state \<Rightarrow> state" where
  "assign ref f st = st\<lparr>tasks := AList.map_entry ref f (tasks st)\<rparr>"

definition executeTask :: "nat \<Rightarrow> state \<Rightarrow> unit result \<times> state" where
  "executeTask taskId st =
     (case map_of (tasks st) taskId of
        None \<Rightarrow> (Return (), st)
      | Some task \<Rightarrow>
          (case call taskId (callback task) st of
             (Throw e, st1) \<Rightarrow> (Throw e, st1)
           | (Return _, st1) \<Rightarrow> (Return (), st1\<lparr>tasks := AList.delete taskId (tasks st1)\<rparr>)))"

text \<open>
  \<^verbatim>\<open>_scheduleTask\<close> of \<^verbatim>\<open>index.esm.mjs\<close>; \<open>now\<close> is the value of \<^verbatim>\<open>Date.now()\<close>.
  The task passed in is the object stored under its own id.
\<close>

definition scheduleTask_esm :: "int \<Rightarrow> task \<Rightarrow> state \<Rightarrow> unit result \<times> state" where
  "scheduleTask_esm now task st =
     (let timeUntilTarget = sub (getTime (targetTime task)) (Num now);
          (h, st1) =
            (if gt0 timeUntilTarget then setTimeout (id_task task) timeUntilTarget st
             else setTimeout (id_task task) (Num 0) st)
      in (Return (), assign (id_task task) (\<lambda>t. t\<lparr>timeoutId := Some h\<rparr>) st1))"

text \<open>\<^verbatim>\<open>_scheduleTask\<close> of \<^verbatim>\<open>src/task.js\<close>: a task that is due is executed inline.\<close>

definition scheduleTask_src :: "int \<Rightarrow> task \<Rightarrow> state \<Rightarrow> unit result \<times> state" where
  "scheduleTask_src now task st =
     (let timeUntilTarget = sub (getTime (targetTime task)) (Num now)
      in if gt0 timeUntilTarget then
           (let (h, st1) = setTimeout (id_task task) timeUntilTarget st
            in (Return (), assign (id_task task) (\<lambda>t. t\<lparr>timeoutId := Some h\<rparr>) st1))
         else executeTask (id_task task) st)"

definition scheduleTask :: "build \<Rightarrow> int \<Rightarrow> task \<Rightarrow> state \<Rightarrow> unit result \<times> state" where
  "scheduleTask b = (case b of EsmBundle \<Rightarrow> scheduleTask_esm | TaskJs \<Rightarrow> scheduleTask_src)"

definition createTask :: "build \<Rightarrow> int \<Rightarrow> date \<Rightarrow> callback \<Rightarrow> state \<Rightarrow> nat result \<times> state" where
  "createTask b now target cb st =
     (let taskId = nextTaskId st;
          st1 = st\<lparr>nextTaskId := taskId + 1\<rparr>;
          task = \<lparr>id_task = taskId, targetTime = target, callback = cb, timeoutId = None\<rparr>;
          st2 = st1\<lparr>tasks := AList.update taskId task (tasks st1)\<rparr>
      in case scheduleTask b now task st2 of
           (Throw e, st3) \<Rightarrow> (Throw e, st3)
         | (Return _, st3) \<Rightarrow> (Return taskId, st3))"

definition cancelTask :: "nat \<Rightarrow> state \<Rightarrow> bool \<times> state" where
  "cancelTask taskId st =
     (case map_of (tasks st) taskId of
        Some task \<Rightarrow>
          (let st1 = clearTimeout (timeoutId task) st
           in (True, st1\<lparr>tasks := AList.delete taskId (tasks st1)\<rparr>))
      | None \<Rightarrow> (False, st))"

definition getTasks :: "state \<Rightarrow> (nat \<times> date) list" where
  "getTasks st = map (\<lambda>(k, task). (id_task task, targetTime task)) (tasks st)"

definition rescheduleTask :: "build \<Rightarrow> int \<Rightarrow> nat \<Rightarrow> date \<Rightarrow> state \<Rightarrow> bool result \<times> state" where
  "rescheduleTask b now taskId newTargetTime st =
     (case map_of (tasks st) taskId of
        Some task \<Rightarrow>
          (let st1 = clearTimeout (timeoutId task) st;
               st2 = assign taskId (\<lambda>t. t\<lparr>targetTime := newTargetTime\<rparr>) st1
           in case scheduleTask b now (task\<lparr>targetTime := newTargetTime\<rparr>) st2 of
                (Throw e, st3) \<Rightarrow> (Throw e, st3)
              | (Return _, st3) \<Rightarrow> (Return True, st3))
      | None \<Rightarrow> (Return False, st))"

section \<open>Timer expiry and operation sequences\<close>

text \<open>
  Modelled from the spec: the host fires a pending timer once. The timer leaves the
  pending set and its closure calls \<^verbatim>\<open>_executeTask\<close>; a handle that is not pending
  fires nothing.
\<close>

definition fire :: "nat \<Rightarrow> state \<Rightarrow> unit result \<times> state" where
  "fire h st =
     (case find (\<lambda>t. handle t = h) (timers st) of
        None \<Rightarrow> (Return (), st)
      | Some t \<Rightarrow> executeTask (fires t) (st\<lparr>timers := filter (\<lambda>t. handle t \<noteq> h) (timers st)\<rparr>))"

text \<open>
  What a client and the host can do to one manager. \<open>Timeout h\<close> is the expiry of the
  pending timer \<open>h\<close>; it may come at any moment, so delays are recorded and not waited
  for. \<open>Stale k\<close> is the closure of a superseded handle running \<^verbatim>\<open>_executeTask(k)\<close>
  although the handle was disarmed: the race the specification guards against.
\<close>

datatype op =
    Create int date callback
  | Cancel nat
  | Reschedule int nat date
  | GetTasks
  | Timeout nat
  | Stale nat

datatype response = Created nat | Answered bool | Listed "(nat \<times> date) list" | Done | Raised error

fun step :: "build \<Rightarrow> op \<Rightarrow> state \<Rightarrow> response \<times> state" where
  "step b (Create now t cb) st =
     (case createTask b now t cb st of
        (Return i, st') \<Rightarrow> (Created i, st')
      | (Throw e, st') \<Rightarrow> (Raised e, st'))"
| "step b (Cancel k) st = (case cancelTask k st of (r, st') \<Rightarrow> (Answered r, st'))"
| "step b (Reschedule now k t) st =
     (case rescheduleTask b now k t st of
        (Return r, st') \<Rightarrow> (Answered r, st')
      | (Throw e, st') \<Rightarrow> (Raised e, st'))"
| "step b GetTasks st = (Listed (getTasks st), st)"
| "step b (Timeout h) st =
     (case fire h st of
        (Return _, st') \<Rightarrow> (Done, st')
      | (Throw e, st') \<Rightarrow> (Raised e, st'))"
| "step b (Stale k) st =
     (case executeTask k st of
        (Return _, st') \<Rightarrow> (Done, st')
      | (Throw e, st') \<Rightarrow> (Raised e, st'))"

fun run :: "build \<Rightarrow> op list \<Rightarrow> state \<Rightarrow> response list \<times> state" where
  "run b [] st = ([], st)"
| "run b (x # xs) st =
     (case step b x st of
        (r, st1) \<Rightarrow> (case run b xs st1 of (rs, st2) \<Rightarrow> (r # rs, st2)))"

section \<open>Invariants of the registry\<close>

text \<open>
  Keys are in ascending order (insertion order is creation order), every task is stored
  under its own id, and every id in use is below the counter.
\<close>

definition ids_ok :: "state \<Rightarrow> bool" where
  "ids_ok st \<longleftrightarrow>
     1 \<le> nextTaskId st \<and>
     sorted_wrt (<) (map fst (tasks st)) \<and>
     (\<forall>k t. map_of (tasks st) k = Some t \<longrightarrow> id_task t = k \<and> 1 \<le> k \<and> k < nextTaskId st)"

text \<open>
  No task is invoked again once an invocation of it has returned: in the log, an entry that
  returned is the last entry of its task.
\<close>

fun no_rerun :: "invocation list \<Rightarrow> bool" where
  "no_rerun [] = True"
| "no_rerun (c # cs) = ((returned c \<longrightarrow> callee c \<notin> callee ` set cs) \<and> no_rerun cs)"

text \<open>
  Every logged invocation is of an id that was handed out, found its own task in the map
  while it ran, and, when it returned, its task is gone.
\<close>

definition log_ok :: "state \<Rightarrow> bool" where
  "log_ok st \<longleftrightarrow>
     no_rerun (calls st) \<and>
     (\<forall>c \<in> set (calls st).
        callee c < nextTaskId st \<and> callee c \<in> set (present c) \<and>
        (returned c \<longrightarrow> map_of (tasks st) (callee c) = None))"

section \<open>Reading a sequence of operations\<close>

text \<open>The ids that the create calls of a run returned, and the number of create calls.\<close>

fun created :: "response list \<Rightarrow> nat list" where
  "created [] = []"
| "created (Created i # rs) = i # created rs"
| "created (_ # rs) = created rs"

fun creates :: "op list \<Rightarrow> nat" where
  "creates [] = 0"
| "creates (Create _ _ _ # xs) = Suc (creates xs)"
| "creates (_ # xs) = creates xs"

text \<open>
  The ids whose callback has returned, the ids that are in the map or whose callback has
  returned, and the ids that a cancel call removed (it answered true).
\<close>

definition completed :: "state \<Rightarrow> nat list" where
  "completed st = map callee (filter returned (calls st))"

definition settled :: "state \<Rightarrow> nat set" where
  "settled st = fst ` set (tasks st) \<union> set (completed st)"

fun cancelled :: "op list \<Rightarrow> response list \<Rightarrow> nat list" where
  "cancelled (Cancel k # xs) (Answered True # rs) = k # cancelled xs rs"
| "cancelled (x # xs) (r # rs) = cancelled xs rs"
| "cancelled _ _ = []"

text \<open>An operation that raised, and the expiry of a timer that was disarmed.\<close>

fun raised :: "response \<Rightarrow> bool" where
  "raised (Raised e) = True"
| "raised _ = False"

fun stale :: "op \<Rightarrow> bool" where
  "stale (Stale k) = True"
| "stale _ = False"

text \<open>
  Tasks and pending timers correspond one to one: handles are distinct and were handed
  out, every task in the map holds the handle of a pending timer that fires its id, and
  every pending timer fires a task in the map that holds its handle.
\<close>

definition live :: "state \<Rightarrow> bool" where
  "live st \<longleftrightarrow>
     distinct (map handle (timers st)) \<and>
     (\<forall>x \<in> set (timers st). handle x < nextTimer st) \<and>
     (\<forall>k task. map_of (tasks st) k = Some task \<longrightarrow>
        (\<exists>x \<in> set (timers st). fires x = k \<and> timeoutId task = Some (handle x))) \<and>
     (\<forall>x \<in> set (timers st).
        \<exists>task. map_of (tasks st) (fires x) = Some task \<and> timeoutId task = Some (handle x))"

section \<open>The snapshot over a store of objects\<close>

text \<open>
  JavaScript arrays, objects and dates are mutable and shared by reference. To see what
  the result of \<^verbatim>\<open>getTasks\<close> shares with the registry, the function is read a second time
  over a store of objects. A \<^verbatim>\<open>Date\<close> is an object of the store; a task object holds its
  id, the address of its \<^verbatim>\<open>Date\<close>, its callback and its timer handle; the map holds the
  addresses of the task objects. \<^verbatim>\<open>({ id, targetTime }) => ({ id, targetTime })\<close>
  allocates a new object for every task and stores in it the task's id and the
  reference found in the task's \<^verbatim>\<open>targetTime\<close> field, and \<^verbatim>\<open>Array.from\<close> allocates the
  array of the new objects' addresses. The order of the allocations cannot be observed;
  the intermediate array of \<^verbatim>\<open>src/task.js\<close>, \<^verbatim>\<open>Array.from(this.tasks.values())\<close>, holds
  references to the task objects and is referred to by nothing once \<^verbatim>\<open>map\<close> has
  returned, and is left out.
\<close>

datatype obj =
    DateObj date
  | TaskObj nat nat callback "nat option"
  | EntryObj nat nat
  | ArrayObj "nat list"

record heap =
  store :: "nat \<Rightarrow> obj option"
  free :: nat
  refs :: "(nat \<times> nat) list"

definition alloc :: "obj \<Rightarrow> heap \<Rightarrow> nat \<times> heap" where
  "alloc ob h = (free h, h\<lparr>store := (store h)(free h \<mapsto> ob), free := free h + 1\<rparr>)"

text \<open>
  The values of the map are task objects; an address that holds none contributes no
  entry. The entry receives the address \<open>d\<close> of the task's \<^verbatim>\<open>Date\<close>, not a new \<^verbatim>\<open>Date\<close>.
\<close>

fun copyAll :: "nat list \<Rightarrow> heap \<Rightarrow> nat list \<times> heap" where
  "copyAll [] h = ([], h)"
| "copyAll (a # as) h =
     (case store h a of
        Some (TaskObj i d cb tid) \<Rightarrow>
          (case alloc (EntryObj i d) h of
             (e, h1) \<Rightarrow> (case copyAll as h1 of (es, h2) \<Rightarrow> (e # es, h2)))
      | _ \<Rightarrow> copyAll as h)"

definition getTasks_store :: "heap \<Rightarrow> nat \<times> heap" where
  "getTasks_store h =
     (case copyAll (map snd (refs h)) h of (es, h1) \<Rightarrow> alloc (ArrayObj es) h1)"

text \<open>
  Reading through the store: the task record that a task object and its \<^verbatim>\<open>Date\<close> stand
  for, the pair that an entry object and its \<^verbatim>\<open>Date\<close> stand for, and the reference in the
  \<^verbatim>\<open>targetTime\<close> field of a task or entry object.
\<close>

definition task_at :: "heap \<Rightarrow> nat \<Rightarrow> task option" where
  "task_at h a =
     (case store h a of
        Some (TaskObj i d cb tid) \<Rightarrow>
          (case store h d of
             Some (DateObj t) \<Rightarrow>
               Some \<lparr>id_task = i, targetTime = t, callback = cb, timeoutId = tid\<rparr>
           | _ \<Rightarrow> None)
      | _ \<Rightarrow> None)"

definition entry_at :: "heap \<Rightarrow> nat \<Rightarrow> (nat \<times> date) option" where
  "entry_at h e =
     (case store h e of
        Some (EntryObj i d) \<Rightarrow>
          (case store h d of Some (DateObj t) \<Rightarrow> Some (i, t) | _ \<Rightarrow> None)
      | _ \<Rightarrow> None)"

definition date_of :: "heap \<Rightarrow> nat \<Rightarrow> nat option" where
  "date_of h a =
     (case store h a of
        Some (TaskObj i d cb tid) \<Rightarrow> Some d
      | Some (EntryObj i d) \<Rightarrow> Some d
      | _ \<Rightarrow> None)"

text \<open>The registry's map and a returned array, read through the store.\<close>

definition tasks_of :: "heap \<Rightarrow> (nat \<times> task) list" where
  "tasks_of h =
     concat (map (\<lambda>(k, a). case task_at h a of Some task \<Rightarrow> [(k, task)] | None \<Rightarrow> [])
       (refs h))"

definition entries_of :: "heap \<Rightarrow> nat list \<Rightarrow> (nat \<times> date) list" where
  "entries_of h es =
     concat (map (\<lambda>e. case entry_at h e of Some p \<Rightarrow> [p] | None \<Rightarrow> []) es)"

definition array_of :: "heap \<Rightarrow> nat \<Rightarrow> nat list" where
  "array_of h arr = (case store h arr of Some (ArrayObj es) \<Rightarrow> es | _ \<Rightarrow> [])"

text \<open>
  Every reference of the map is the address of an allocated task object, whose
  \<^verbatim>\<open>targetTime\<close> field is the address of an allocated \<^verbatim>\<open>Date\<close>.
\<close>

definition task_ok :: "heap \<Rightarrow> nat \<Rightarrow> bool" where
  "task_ok h a \<longleftrightarrow>
     a < free h \<and>
     (case store h a of
        Some (TaskObj i d cb tid) \<Rightarrow>
          d < free h \<and> (case store h d of Some (DateObj t) \<Rightarrow> True | _ \<Rightarrow> False)
      | _ \<Rightarrow> False)"

definition heap_ok :: "heap \<Rightarrow> bool" where
  "heap_ok h \<longleftrightarrow> (\<forall>a \<in> snd ` set (refs h). task_ok h a)"

section \<open>Association lists as maps in insertion order\<close>

lemma keys_map_entry: "map fst (AList.map_entry k f al) = map fst al"
  by (induction al) auto

lemma sorted_removeAll: "sorted_wrt (<) xs \<Longrightarrow> sorted_wrt (<) (removeAll k xs)"
  by (simp add: removeAll_filter_not_eq sorted_wrt_filter)

lemma in_keys_iff: "k \<in> set (map fst al) \<longleftrightarrow> map_of al k \<noteq> None"
  by (simp add: map_of_eq_None_iff)

lemma map_of_Some_key: "map_of al k = Some v \<Longrightarrow> k \<in> fst ` set al"
  by (induction al) (auto split: if_splits)

lemmas alist_simps = keys_map_entry AList.delete_keys AList.update_keys AList.update_conv'
  AList.delete_conv' AList.map_of_map_entry sorted_removeAll

section \<open>The state an operation leaves\<close>

lemma snd_createTask:
  "snd (createTask b now t cb st) =
     snd (scheduleTask b now \<lparr>id_task = nextTaskId st, targetTime = t, callback = cb, timeoutId = None\<rparr>
       (st\<lparr>nextTaskId := nextTaskId st + 1,
           tasks := AList.update (nextTaskId st)
             \<lparr>id_task = nextTaskId st, targetTime = t, callback = cb, timeoutId = None\<rparr> (tasks st)\<rparr>))"
  by (simp add: createTask_def Let_def split: prod.splits result.splits)

lemma snd_rescheduleTask:
  "snd (rescheduleTask b now k t st) =
     (case map_of (tasks st) k of
        None \<Rightarrow> st
      | Some task \<Rightarrow>
          snd (scheduleTask b now (task\<lparr>targetTime := t\<rparr>)
            (assign k (\<lambda>t'. t'\<lparr>targetTime := t\<rparr>) (clearTimeout (timeoutId task) st))))"
  by (simp add: rescheduleTask_def Let_def split: prod.splits result.splits option.splits)

lemma snd_fire:
  "snd (fire h st) =
     (case find (\<lambda>t. handle t = h) (timers st) of
        None \<Rightarrow> st
      | Some t \<Rightarrow> snd (executeTask (fires t) (st\<lparr>timers := filter (\<lambda>t. handle t \<noteq> h) (timers st)\<rparr>)))"
  by (simp add: fire_def split: option.splits)

lemma snd_step:
  "snd (step b x st) =
     (case x of
        Create now t cb \<Rightarrow> snd (createTask b now t cb st)
      | Cancel k \<Rightarrow> snd (cancelTask k st)
      | Reschedule now k t \<Rightarrow> snd (rescheduleTask b now k t st)
      | GetTasks \<Rightarrow> st
      | Timeout h \<Rightarrow> snd (fire h st)
      | Stale k \<Rightarrow> snd (executeTask k st))"
  by (cases x) (simp_all split: prod.splits result.splits)

lemma snd_run_Cons: "snd (run b (x # xs) st) = snd (run b xs (snd (step b x st)))"
  by (simp add: split_beta)

lemma fst_run_Cons:
  "fst (run b (x # xs) st) = fst (step b x st) # fst (run b xs (snd (step b x st)))"
  by (simp add: split_beta)

lemma snd_run_append: "snd (run b (xs @ ys) st) = snd (run b ys (snd (run b xs st)))"
  by (induction xs arbitrary: st) (simp_all add: split_beta)

lemma fst_run_append:
  "fst (run b (xs @ ys) st) = fst (run b xs st) @ fst (run b ys (snd (run b xs st)))"
  by (induction xs arbitrary: st) (simp_all add: split_beta)

lemma run_append:
  "run b (xs @ ys) st =
     (fst (run b xs st) @ fst (run b ys (snd (run b xs st))), snd (run b ys (snd (run b xs st))))"
  by (simp add: fst_run_append snd_run_append prod_eq_iff)

lemma length_run: "length (fst (run b xs st)) = length xs"
  by (induction xs arbitrary: st) (simp_all add: split_beta)

section \<open>The invariants hold in every reachable state\<close>

lemma ids_ok_constructor: "ids_ok constructor"
  by (simp add: ids_ok_def constructor_def)

lemma ids_ok_timers: "ids_ok (st\<lparr>timers := ts\<rparr>) = ids_ok st"
  by (simp add: ids_ok_def)

lemma executeTask_ids_ok: "ids_ok st \<Longrightarrow> ids_ok (snd (executeTask k st))"
  by (auto simp: ids_ok_def executeTask_def call_def logged_def alist_simps
      split: option.splits callback.splits)

lemma cancelTask_ids_ok: "ids_ok st \<Longrightarrow> ids_ok (snd (cancelTask k st))"
  by (auto simp: ids_ok_def cancelTask_def clearTimeout_def alist_simps split: option.splits)

lemma fire_ids_ok: "ids_ok st \<Longrightarrow> ids_ok (snd (fire h st))"
  by (simp add: snd_fire executeTask_ids_ok ids_ok_timers split: option.splits)

lemma armed_ids_ok:
  "ids_ok st \<Longrightarrow>
   ids_ok (assign k (\<lambda>t. t\<lparr>timeoutId := Some h\<rparr>) (snd (setTimeout k' ms st)))"
  by (auto simp: ids_ok_def setTimeout_def assign_def alist_simps split: option.splits if_splits)

lemma scheduleTask_ids_ok: "ids_ok st \<Longrightarrow> ids_ok (snd (scheduleTask b now t st))"
  by (cases b)
     (simp_all add: scheduleTask_def scheduleTask_esm_def scheduleTask_src_def Let_def split_beta
        executeTask_ids_ok armed_ids_ok)

lemma created_ids_ok:
  assumes "ids_ok st"
  shows "ids_ok (st\<lparr>nextTaskId := nextTaskId st + 1,
           tasks := AList.update (nextTaskId st)
             \<lparr>id_task = nextTaskId st, targetTime = t, callback = cb, timeoutId = None\<rparr> (tasks st)\<rparr>)"
proof -
  have fresh: "map_of (tasks st) (nextTaskId st) = None"
    using assms by (cases "map_of (tasks st) (nextTaskId st)") (auto simp: ids_ok_def)
  have below: "\<forall>k \<in> set (map fst (tasks st)). k < nextTaskId st"
    using assms by (auto simp: ids_ok_def dest!: weak_map_of_SomeI)
  show ?thesis
    using assms fresh below
    by (fastforce simp: ids_ok_def alist_simps in_keys_iff sorted_wrt_append split: if_splits)
qed

lemma createTask_ids_ok: "ids_ok st \<Longrightarrow> ids_ok (snd (createTask b now t cb st))"
  by (simp only: snd_createTask scheduleTask_ids_ok created_ids_ok)

lemma retargeted_ids_ok:
  "ids_ok st \<Longrightarrow> ids_ok (assign k (\<lambda>t'. t'\<lparr>targetTime := t\<rparr>) (clearTimeout h st))"
  by (auto simp: ids_ok_def assign_def clearTimeout_def alist_simps split: option.splits if_splits)

lemma rescheduleTask_ids_ok: "ids_ok st \<Longrightarrow> ids_ok (snd (rescheduleTask b now k t st))"
  by (simp add: snd_rescheduleTask scheduleTask_ids_ok retargeted_ids_ok split: option.splits)

lemma step_ids_ok: "ids_ok st \<Longrightarrow> ids_ok (snd (step b x st))"
  unfolding snd_step
  by (cases x)
     (simp_all add: createTask_ids_ok rescheduleTask_ids_ok cancelTask_ids_ok
        fire_ids_ok executeTask_ids_ok)

lemma run_ids_ok: "ids_ok st \<Longrightarrow> ids_ok (snd (run b xs st))"
  by (induction xs arbitrary: st) (simp_all add: snd_run_Cons step_ids_ok del: run.simps(2))

section \<open>The log of invocations\<close>

lemma no_rerun_snoc:
  "no_rerun (cs @ [c]) \<longleftrightarrow> no_rerun cs \<and> (\<forall>c' \<in> set cs. returned c' \<longrightarrow> callee c' \<noteq> callee c)"
  by (induction cs) auto

lemma log_ok_constructor: "log_ok constructor"
  by (simp add: log_ok_def constructor_def)

lemma log_ok_timers: "log_ok (st\<lparr>timers := ts\<rparr>) = log_ok st"
  by (simp add: log_ok_def)

lemma executeTask_log_ok: "ids_ok st \<Longrightarrow> log_ok st \<Longrightarrow> log_ok (snd (executeTask k st))"
  by (auto simp: ids_ok_def log_ok_def executeTask_def call_def logged_def alist_simps
      no_rerun_snoc map_of_Some_key split: option.splits callback.splits)

lemma cancelTask_log_ok: "log_ok st \<Longrightarrow> log_ok (snd (cancelTask k st))"
  by (auto simp: log_ok_def cancelTask_def clearTimeout_def alist_simps split: option.splits)

lemma fire_log_ok: "ids_ok st \<Longrightarrow> log_ok st \<Longrightarrow> log_ok (snd (fire h st))"
  by (simp add: snd_fire executeTask_log_ok ids_ok_timers log_ok_timers split: option.splits)

lemma armed_log_ok:
  "log_ok st \<Longrightarrow> log_ok (assign k (\<lambda>t. t\<lparr>timeoutId := Some h\<rparr>) (snd (setTimeout k' ms st)))"
  by (auto simp: log_ok_def setTimeout_def assign_def alist_simps split: option.splits if_splits)

lemma scheduleTask_log_ok:
  "ids_ok st \<Longrightarrow> log_ok st \<Longrightarrow> log_ok (snd (scheduleTask b now t st))"
  by (cases b)
     (simp_all add: scheduleTask_def scheduleTask_esm_def scheduleTask_src_def Let_def split_beta
        executeTask_log_ok armed_log_ok)

lemma created_log_ok:
  assumes "log_ok st"
  shows "log_ok (st\<lparr>nextTaskId := nextTaskId st + 1,
           tasks := AList.update (nextTaskId st) task (tasks st)\<rparr>)"
  using assms by (fastforce simp: log_ok_def alist_simps)

lemma createTask_log_ok:
  "ids_ok st \<Longrightarrow> log_ok st \<Longrightarrow> log_ok (snd (createTask b now t cb st))"
  by (simp only: snd_createTask scheduleTask_log_ok created_ids_ok created_log_ok)

lemma retargeted_log_ok:
  "log_ok st \<Longrightarrow> log_ok (assign k (\<lambda>t'. t'\<lparr>targetTime := t\<rparr>) (clearTimeout h st))"
  by (auto simp: log_ok_def assign_def clearTimeout_def alist_simps split: option.splits if_splits)

lemma rescheduleTask_log_ok:
  "ids_ok st \<Longrightarrow> log_ok st \<Longrightarrow> log_ok (snd (rescheduleTask b now k t st))"
  by (simp add: snd_rescheduleTask scheduleTask_log_ok retargeted_ids_ok retargeted_log_ok
      split: option.splits)

lemma step_log_ok: "ids_ok st \<Longrightarrow> log_ok st \<Longrightarrow> log_ok (snd (step b x st))"
  unfolding snd_step
  by (cases x)
     (simp_all add: createTask_log_ok rescheduleTask_log_ok cancelTask_log_ok
        fire_log_ok executeTask_log_ok)

lemma run_log_ok: "ids_ok st \<Longrightarrow> log_ok st \<Longrightarrow> log_ok (snd (run b xs st))"
  by (induction xs arbitrary: st)
     (simp_all add: snd_run_Cons step_ids_ok step_log_ok del: run.simps(2))

lemma no_rerun_distinct:
  "no_rerun cs \<Longrightarrow> \<forall>c \<in> set cs. returned c \<Longrightarrow> distinct (map callee cs)"
  by (induction cs) auto

section \<open>What arming does\<close>

lemma scheduleTask_esm_eq:
  "scheduleTask_esm now task st =
     (Return (),
      st\<lparr>timers := timers st @
            [\<lparr>handle = nextTimer st, fires = id_task task,
              delay = (if gt0 (sub (getTime (targetTime task)) (Num now))
                       then sub (getTime (targetTime task)) (Num now) else Num 0)\<rparr>],
         nextTimer := nextTimer st + 1,
         tasks := AList.map_entry (id_task task) (\<lambda>t. t\<lparr>timeoutId := Some (nextTimer st)\<rparr>)
                    (tasks st)\<rparr>)"
  by (simp add: scheduleTask_esm_def setTimeout_def assign_def Let_def)

lemma scheduleTask_src_eq:
  "scheduleTask_src now task st =
     (if gt0 (sub (getTime (targetTime task)) (Num now)) then scheduleTask_esm now task st
      else executeTask (id_task task) st)"
  by (simp add: scheduleTask_src_def scheduleTask_esm_def Let_def split_beta)

lemma createTask_esm_eq:
  "createTask EsmBundle now t cb st =
     (Return (nextTaskId st),
      st\<lparr>nextTaskId := nextTaskId st + 1,
         timers := timers st @
            [\<lparr>handle = nextTimer st, fires = nextTaskId st,
              delay = (if gt0 (sub (getTime t) (Num now)) then sub (getTime t) (Num now)
                       else Num 0)\<rparr>],
         nextTimer := nextTimer st + 1,
         tasks := AList.map_entry (nextTaskId st) (\<lambda>t. t\<lparr>timeoutId := Some (nextTimer st)\<rparr>)
                    (AList.update (nextTaskId st)
                       \<lparr>id_task = nextTaskId st, targetTime = t, callback = cb,
                        timeoutId = None\<rparr> (tasks st))\<rparr>)"
  by (simp add: createTask_def scheduleTask_def scheduleTask_esm_eq Let_def)

lemma createTask_src_armed:
  "gt0 (sub (getTime t) (Num now)) \<Longrightarrow>
   createTask TaskJs now t cb st = createTask EsmBundle now t cb st"
  by (simp add: createTask_def scheduleTask_def scheduleTask_src_eq Let_def)

lemma createTask_src_due:
  "\<not> gt0 (sub (getTime t) (Num now)) \<Longrightarrow>
   createTask TaskJs now t cb st =
     (case cb of
        Returns \<Rightarrow>
          (Return (nextTaskId st),
           st\<lparr>nextTaskId := nextTaskId st + 1,
              calls := calls st @
                [\<lparr>callee = nextTaskId st,
                  present = map fst (AList.update (nextTaskId st)
                    \<lparr>id_task = nextTaskId st, targetTime = t, callback = cb,
                     timeoutId = None\<rparr> (tasks st)),
                  returned = True\<rparr>],
              tasks := AList.delete (nextTaskId st) (tasks st)\<rparr>)
      | Throws \<Rightarrow>
          (Throw CallbackError,
           st\<lparr>nextTaskId := nextTaskId st + 1,
              calls := calls st @
                [\<lparr>callee = nextTaskId st,
                  present = map fst (AList.update (nextTaskId st)
                    \<lparr>id_task = nextTaskId st, targetTime = t, callback = cb,
                     timeoutId = None\<rparr> (tasks st)),
                  returned = False\<rparr>],
              tasks := AList.update (nextTaskId st)
                    \<lparr>id_task = nextTaskId st, targetTime = t, callback = cb,
                     timeoutId = None\<rparr> (tasks st)\<rparr>)
      | NotAFunction \<Rightarrow>
          (Throw TypeError,
           st\<lparr>nextTaskId := nextTaskId st + 1,
              tasks := AList.update (nextTaskId st)
                    \<lparr>id_task = nextTaskId st, targetTime = t, callback = cb,
                     timeoutId = None\<rparr> (tasks st)\<rparr>))"
  by (cases cb)
     (simp_all add: createTask_def scheduleTask_def scheduleTask_src_eq Let_def executeTask_def
        call_def logged_def AList.update_conv' AList.delete_update_same)

lemma rescheduleTask_esm_eq:
  "map_of (tasks st) k = Some task \<Longrightarrow>
   rescheduleTask EsmBundle now k t st =
     (Return True,
      st\<lparr>timers := filter (\<lambda>x. Some (handle x) \<noteq> timeoutId task) (timers st) @
            [\<lparr>handle = nextTimer st, fires = id_task task,
              delay = (if gt0 (sub (getTime t) (Num now)) then sub (getTime t) (Num now)
                       else Num 0)\<rparr>],
         nextTimer := nextTimer st + 1,
         tasks := AList.map_entry (id_task task) (\<lambda>t. t\<lparr>timeoutId := Some (nextTimer st)\<rparr>)
                    (AList.map_entry k (\<lambda>t'. t'\<lparr>targetTime := t\<rparr>) (tasks st))\<rparr>)"
  by (cases "timeoutId task")
     (simp_all add: rescheduleTask_def scheduleTask_def scheduleTask_esm_eq Let_def
        clearTimeout_def assign_def)

lemma rescheduleTask_absent:
  "map_of (tasks st) k = None \<Longrightarrow> rescheduleTask b now k t st = (Return False, st)"
  by (simp add: rescheduleTask_def)

lemma delete_map_entry: "AList.delete k (AList.map_entry k f al) = AList.delete k al"
  by (induction al) auto

lemma rescheduleTask_src_armed:
  "gt0 (sub (getTime t) (Num now)) \<Longrightarrow>
   rescheduleTask TaskJs now k t st = rescheduleTask EsmBundle now k t st"
  by (simp add: rescheduleTask_def scheduleTask_def scheduleTask_src_eq Let_def
      split: option.splits)

lemma rescheduleTask_src_due:
  assumes "map_of (tasks st) k = Some task" and "id_task task = k"
    and "\<not> gt0 (sub (getTime t) (Num now))"
  shows "rescheduleTask TaskJs now k t st =
     (case callback task of
        Returns \<Rightarrow>
          (Return True,
           st\<lparr>timers := filter (\<lambda>x. Some (handle x) \<noteq> timeoutId task) (timers st),
              calls := calls st @
                [\<lparr>callee = k, present = map fst (tasks st), returned = True\<rparr>],
              tasks := AList.delete k (tasks st)\<rparr>)
      | Throws \<Rightarrow>
          (Throw CallbackError,
           st\<lparr>timers := filter (\<lambda>x. Some (handle x) \<noteq> timeoutId task) (timers st),
              calls := calls st @
                [\<lparr>callee = k, present = map fst (tasks st), returned = False\<rparr>],
              tasks := AList.map_entry k (\<lambda>t'. t'\<lparr>targetTime := t\<rparr>) (tasks st)\<rparr>)
      | NotAFunction \<Rightarrow>
          (Throw TypeError,
           st\<lparr>timers := filter (\<lambda>x. Some (handle x) \<noteq> timeoutId task) (timers st),
              tasks := AList.map_entry k (\<lambda>t'. t'\<lparr>targetTime := t\<rparr>) (tasks st)\<rparr>))"
  using assms
  by (cases "callback task"; cases "timeoutId task")
     (simp_all add: rescheduleTask_def scheduleTask_def scheduleTask_src_eq Let_def
        executeTask_def call_def logged_def clearTimeout_def assign_def
        AList.map_of_map_entry keys_map_entry delete_map_entry)

lemma rescheduleTask_esm_tasks:
  assumes "map_of (tasks st) k = Some task" and "id_task task = k"
  shows "map_of (tasks (snd (rescheduleTask EsmBundle now k t st))) =
           (map_of (tasks st))(k \<mapsto> task\<lparr>targetTime := t, timeoutId := Some (nextTimer st)\<rparr>)"
    and "map fst (tasks (snd (rescheduleTask EsmBundle now k t st))) = map fst (tasks st)"
  using assms
  by (simp_all add: rescheduleTask_esm_eq AList.map_of_map_entry keys_map_entry fun_eq_iff)

lemma rescheduleTask_known:
  "map_of (tasks st) k = Some task \<Longrightarrow> fst (rescheduleTask b now k t st) \<noteq> Return False"
  by (simp add: rescheduleTask_def Let_def split_beta split: result.splits)

section \<open>The counter\<close>

lemma executeTask_nextTaskId: "nextTaskId (snd (executeTask k st)) = nextTaskId st"
  by (simp add: executeTask_def call_def logged_def split: option.splits callback.splits)

lemma scheduleTask_nextTaskId: "nextTaskId (snd (scheduleTask b now task st)) = nextTaskId st"
  by (cases b)
     (simp_all add: scheduleTask_def scheduleTask_esm_eq scheduleTask_src_eq
        executeTask_nextTaskId)

lemma createTask_nextTaskId: "nextTaskId (snd (createTask b now t cb st)) = nextTaskId st + 1"
  by (simp add: snd_createTask scheduleTask_nextTaskId)

lemma cancelTask_nextTaskId: "nextTaskId (snd (cancelTask k st)) = nextTaskId st"
  by (simp add: cancelTask_def clearTimeout_def Let_def split: option.splits)

lemma rescheduleTask_nextTaskId: "nextTaskId (snd (rescheduleTask b now k t st)) = nextTaskId st"
  by (simp add: snd_rescheduleTask scheduleTask_nextTaskId assign_def clearTimeout_def
      split: option.splits)

lemma fire_nextTaskId: "nextTaskId (snd (fire h st)) = nextTaskId st"
  by (simp add: snd_fire executeTask_nextTaskId split: option.splits)

lemma step_nextTaskId: "nextTaskId (snd (step b x st)) = nextTaskId st + creates [x]"
  unfolding snd_step
  by (cases x)
     (simp_all add: createTask_nextTaskId cancelTask_nextTaskId rescheduleTask_nextTaskId
        fire_nextTaskId executeTask_nextTaskId)

lemma creates_Cons: "creates (x # xs) = creates [x] + creates xs"
  by (cases x) simp_all

lemma run_nextTaskId: "nextTaskId (snd (run b xs st)) = nextTaskId st + creates xs"
proof (induction xs arbitrary: st)
  case Nil
  show ?case by simp
next
  case (Cons x xs)
  show ?case
    by (simp only: snd_run_Cons Cons.IH step_nextTaskId creates_Cons [of x xs] add.assoc)
qed

lemma fst_createTask:
  "fst (createTask b now t cb st) = Return (nextTaskId st) \<or>
   (\<exists>e. fst (createTask b now t cb st) = Throw e)"
  by (simp add: createTask_def Let_def split_beta split: result.splits)

lemma created_step:
  "created [fst (step b x st)] = [] \<or>
   (created [fst (step b x st)] = [nextTaskId st] \<and> creates [x] = 1)"
proof (cases x)
  case (Create now t cb)
  then show ?thesis
    using fst_createTask [of b now t cb st]
    by (auto simp: split_beta split: result.splits)
qed (simp_all add: split_beta split: result.splits)

lemma created_Cons: "created (r # rs) = created [r] @ created rs"
  by (cases r) simp_all

lemma run_created_bounds:
  "sorted_wrt (<) (created (fst (run b xs st))) \<and>
   (\<forall>i \<in> set (created (fst (run b xs st))). nextTaskId st \<le> i \<and> i < nextTaskId st + creates xs)"
proof (induction xs arbitrary: st)
  case Nil
  show ?case by simp
next
  case (Cons x xs)
  let ?st1 = "snd (step b x st)"
  have ih: "sorted_wrt (<) (created (fst (run b xs ?st1))) \<and>
    (\<forall>i \<in> set (created (fst (run b xs ?st1))).
       nextTaskId ?st1 \<le> i \<and> i < nextTaskId ?st1 + creates xs)"
    by (rule Cons.IH)
  have split: "created (fst (run b (x # xs) st)) =
      created [fst (step b x st)] @ created (fst (run b xs ?st1))"
    by (simp only: fst_run_Cons created_Cons [of "fst (step b x st)" "fst (run b xs ?st1)"])
  have n: "nextTaskId ?st1 = nextTaskId st + creates [x]"
    by (rule step_nextTaskId)
  have c: "creates (x # xs) = creates [x] + creates xs"
    by (rule creates_Cons)
  from created_step [of b x st] show ?case
  proof
    assume "created [fst (step b x st)] = []"
    then show ?thesis
      using ih by (simp only: split n c) auto
  next
    assume "created [fst (step b x st)] = [nextTaskId st] \<and> creates [x] = 1"
    then show ?thesis
      using ih by (simp only: split n c) (auto simp: sorted_wrt_append)
  qed
qed

lemma created_step_esm:
  "created [fst (step EsmBundle x st)] = [nextTaskId st ..< nextTaskId st + creates [x]]"
  by (cases x) (simp_all add: split_beta createTask_esm_eq split: result.splits)

lemma run_created_esm:
  "created (fst (run EsmBundle xs st)) = [nextTaskId st ..< nextTaskId st + creates xs]"
proof (induction xs arbitrary: st)
  case Nil
  show ?case by simp
next
  case (Cons x xs)
  let ?st1 = "snd (step EsmBundle x st)"
  have "created (fst (run EsmBundle (x # xs) st)) =
      created [fst (step EsmBundle x st)] @ created (fst (run EsmBundle xs ?st1))"
    by (simp only: fst_run_Cons
        created_Cons [of "fst (step EsmBundle x st)" "fst (run EsmBundle xs ?st1)"])
  also have "\<dots> = [nextTaskId st ..< nextTaskId st + creates [x]] @
      [nextTaskId st + creates [x] ..< nextTaskId st + creates [x] + creates xs]"
    by (simp only: Cons.IH created_step_esm step_nextTaskId)
  also have "\<dots> = [nextTaskId st ..< nextTaskId st + creates [x] + creates xs]"
    by (rule upt_add_eq_append [symmetric]) simp
  finally show ?case
    by (simp only: creates_Cons [of x xs] add.assoc)
qed

section \<open>A task that is gone stays gone\<close>

lemma executeTask_gone:
  "map_of (tasks st) k = None \<Longrightarrow>
   map_of (tasks (snd (executeTask j st))) k = None \<and>
   count_list (map callee (calls (snd (executeTask j st)))) k =
     count_list (map callee (calls st)) k"
  by (auto simp: executeTask_def call_def logged_def AList.delete_conv'
      split: option.splits callback.splits)

lemma scheduleTask_gone:
  "map_of (tasks st) k = None \<Longrightarrow>
   map_of (tasks (snd (scheduleTask b now task st))) k = None \<and>
   count_list (map callee (calls (snd (scheduleTask b now task st)))) k =
     count_list (map callee (calls st)) k"
  by (cases b)
     (auto simp: scheduleTask_def scheduleTask_esm_eq scheduleTask_src_eq executeTask_gone
        AList.map_of_map_entry)

lemma createTask_gone:
  assumes "map_of (tasks st) k = None" and "k < nextTaskId st"
  shows "map_of (tasks (snd (createTask b now t cb st))) k = None \<and>
   count_list (map callee (calls (snd (createTask b now t cb st)))) k =
     count_list (map callee (calls st)) k"
proof -
  let ?st2 = "st\<lparr>nextTaskId := nextTaskId st + 1,
           tasks := AList.update (nextTaskId st)
             \<lparr>id_task = nextTaskId st, targetTime = t, callback = cb, timeoutId = None\<rparr> (tasks st)\<rparr>"
  have "map_of (tasks ?st2) k = None"
    using assms by (simp add: AList.update_conv')
  from scheduleTask_gone [OF this] show ?thesis
    by (simp add: snd_createTask)
qed

lemma cancelTask_gone:
  "map_of (tasks st) k = None \<Longrightarrow>
   map_of (tasks (snd (cancelTask j st))) k = None \<and>
   count_list (map callee (calls (snd (cancelTask j st)))) k =
     count_list (map callee (calls st)) k"
  by (auto simp: cancelTask_def clearTimeout_def Let_def AList.delete_conv' split: option.splits)

lemma rescheduleTask_gone:
  assumes "map_of (tasks st) k = None"
  shows "map_of (tasks (snd (rescheduleTask b now j t st))) k = None \<and>
   count_list (map callee (calls (snd (rescheduleTask b now j t st)))) k =
     count_list (map callee (calls st)) k"
proof (cases "map_of (tasks st) j")
  case None
  then show ?thesis using assms by (simp add: snd_rescheduleTask)
next
  case (Some task)
  let ?st2 = "assign j (\<lambda>t'. t'\<lparr>targetTime := t\<rparr>) (clearTimeout (timeoutId task) st)"
  have "map_of (tasks ?st2) k = None" and "calls ?st2 = calls st"
    using assms
    by (auto simp: assign_def clearTimeout_def AList.map_of_map_entry split: option.splits)
  with scheduleTask_gone [of ?st2 k b now "task\<lparr>targetTime := t\<rparr>"] show ?thesis
    using Some by (simp add: snd_rescheduleTask)
qed

lemma fire_gone:
  "map_of (tasks st) k = None \<Longrightarrow>
   map_of (tasks (snd (fire h st))) k = None \<and>
   count_list (map callee (calls (snd (fire h st)))) k =
     count_list (map callee (calls st)) k"
  using executeTask_gone [of "st\<lparr>timers := filter (\<lambda>t. handle t \<noteq> h) (timers st)\<rparr>" k]
  by (simp add: snd_fire split: option.splits)

lemma step_gone:
  assumes "map_of (tasks st) k = None" and "k < nextTaskId st"
  shows "map_of (tasks (snd (step b x st))) k = None \<and>
   count_list (map callee (calls (snd (step b x st)))) k =
     count_list (map callee (calls st)) k"
  unfolding snd_step using assms
  by (cases x)
     (simp_all add: createTask_gone cancelTask_gone rescheduleTask_gone fire_gone
        executeTask_gone)

lemma run_gone:
  "map_of (tasks st) k = None \<Longrightarrow> k < nextTaskId st \<Longrightarrow>
   map_of (tasks (snd (run b xs st))) k = None \<and>
   count_list (map callee (calls (snd (run b xs st)))) k =
     count_list (map callee (calls st)) k"
proof (induction xs arbitrary: st)
  case Nil
  then show ?case by simp
next
  case (Cons x xs)
  have a: "map_of (tasks (snd (step b x st))) k = None"
    and c: "count_list (map callee (calls (snd (step b x st)))) k =
      count_list (map callee (calls st)) k"
    using step_gone [OF Cons.prems] by simp_all
  have "k < nextTaskId (snd (step b x st))"
    using Cons.prems(2) by (simp add: step_nextTaskId)
  from Cons.IH [OF a this] show ?case
    by (simp only: snd_run_Cons c)
qed

lemma cancelTask_eq:
  "cancelTask k st =
     (case map_of (tasks st) k of
        None \<Rightarrow> (False, st)
      | Some task \<Rightarrow>
          (True, st\<lparr>timers := filter (\<lambda>x. Some (handle x) \<noteq> timeoutId task) (timers st),
                   tasks := AList.delete k (tasks st)\<rparr>))"
  by (cases "map_of (tasks st) k"; cases "timeoutId (the (map_of (tasks st) k))")
     (simp_all add: cancelTask_def clearTimeout_def Let_def)

section \<open>Tasks and their timers\<close>

lemma executeTask_eq:
  "executeTask k st =
     (case map_of (tasks st) k of
        None \<Rightarrow> (Return (), st)
      | Some task \<Rightarrow>
          (case callback task of
             Returns \<Rightarrow>
               (Return (),
                st\<lparr>calls := calls st @
                     [\<lparr>callee = k, present = map fst (tasks st), returned = True\<rparr>],
                   tasks := AList.delete k (tasks st)\<rparr>)
           | Throws \<Rightarrow>
               (Throw CallbackError,
                st\<lparr>calls := calls st @
                     [\<lparr>callee = k, present = map fst (tasks st), returned = False\<rparr>]\<rparr>)
           | NotAFunction \<Rightarrow> (Throw TypeError, st)))"
  by (simp add: executeTask_def call_def logged_def split: option.splits callback.splits)

lemma live_constructor: "live constructor"
  by (simp add: live_def constructor_def)

lemma live_cong:
  "timers st' = timers st \<Longrightarrow> nextTimer st' = nextTimer st \<Longrightarrow>
   map_of (tasks st') = map_of (tasks st) \<Longrightarrow> live st' = live st"
  by (simp add: live_def)

lemma live_same_handle:
  assumes "live st" and "x \<in> set (timers st)" and "y \<in> set (timers st)"
    and "handle x = handle y"
  shows "x = y"
proof -
  have "inj_on handle (set (timers st))"
    using assms(1) by (simp add: live_def distinct_map)
  then show ?thesis using assms(2-4) by (auto dest: inj_onD)
qed

lemma live_task_timer:
  assumes "live st" and "map_of (tasks st) k = Some task" and "x \<in> set (timers st)"
  shows "Some (handle x) = timeoutId task \<longleftrightarrow> fires x = k"
proof
  assume h: "Some (handle x) = timeoutId task"
  obtain y where y: "y \<in> set (timers st)" "fires y = k" "timeoutId task = Some (handle y)"
    using assms(1,2) unfolding live_def by blast
  have "x = y"
    using live_same_handle [OF assms(1,3) y(1)] h y(3) by simp
  then show "fires x = k" using y(2) by simp
next
  assume "fires x = k"
  then show "Some (handle x) = timeoutId task"
    using assms unfolding live_def by fastforce
qed

lemma live_filter:
  assumes "live st" and "map_of (tasks st) k = Some task"
  shows "filter (\<lambda>x. Some (handle x) \<noteq> timeoutId task) (timers st) =
         filter (\<lambda>x. fires x \<noteq> k) (timers st)"
  using live_task_timer [OF assms] by (auto intro: filter_cong)

lemma live_fresh:
  assumes "live st" and "map_of (tasks st) k = None"
  shows "filter (\<lambda>x. fires x \<noteq> k) (timers st) = timers st"
proof -
  have "\<forall>x \<in> set (timers st). fires x \<noteq> k"
    using assms unfolding live_def by fastforce
  then show ?thesis by simp
qed

lemma live_removed:
  assumes "live st"
    and "timers st' = filter (\<lambda>x. fires x \<noteq> k) (timers st)"
    and "nextTimer st' = nextTimer st"
    and "map_of (tasks st') = (map_of (tasks st))(k := None)"
  shows "live st'"
proof -
  have d: "distinct (map handle (timers st'))"
    using assms(1,2) by (simp add: live_def distinct_map_filter)
  have b: "\<forall>x \<in> set (timers st'). handle x < nextTimer st'"
    using assms(1,2,3) by (simp add: live_def)
  have t: "\<forall>j task. map_of (tasks st') j = Some task \<longrightarrow>
        (\<exists>x \<in> set (timers st'). fires x = j \<and> timeoutId task = Some (handle x))"
    using assms(1) unfolding live_def assms(2,4) by (fastforce split: if_splits)
  have p: "\<forall>x \<in> set (timers st').
        \<exists>task. map_of (tasks st') (fires x) = Some task \<and> timeoutId task = Some (handle x)"
    using assms(1) unfolding live_def assms(2,4) by auto
  show ?thesis
    unfolding live_def using d b t p by blast
qed

lemma live_armed:
  assumes "live st"
    and "timers st' =
      filter (\<lambda>x. fires x \<noteq> k) (timers st) @ [\<lparr>handle = nextTimer st, fires = k, delay = d\<rparr>]"
    and "nextTimer st' = nextTimer st + 1"
    and "map_of (tasks st') = (map_of (tasks st))(k \<mapsto> task')"
    and "timeoutId task' = Some (nextTimer st)"
  shows "live st'"
proof -
  have old: "\<forall>x \<in> set (timers st). handle x < nextTimer st"
    using assms(1) by (simp add: live_def)
  have d: "distinct (map handle (timers st'))"
    using assms(1) old unfolding assms(2) by (auto simp: live_def distinct_map_filter)
  have b: "\<forall>x \<in> set (timers st'). handle x < nextTimer st'"
    using old unfolding assms(2,3) by auto
  have t: "\<forall>j task. map_of (tasks st') j = Some task \<longrightarrow>
        (\<exists>x \<in> set (timers st'). fires x = j \<and> timeoutId task = Some (handle x))"
    using assms(1,5) unfolding live_def assms(2,4) by (fastforce split: if_splits)
  have p: "\<forall>x \<in> set (timers st').
        \<exists>task. map_of (tasks st') (fires x) = Some task \<and> timeoutId task = Some (handle x)"
    using assms(1,5) unfolding live_def assms(2,4) by auto
  show ?thesis
    unfolding live_def using d b t p by blast
qed

lemma cancelTask_live:
  assumes "live st"
  shows "live (snd (cancelTask k st))"
proof (cases "map_of (tasks st) k")
  case None
  then show ?thesis using assms by (simp add: cancelTask_eq)
next
  case (Some task)
  show ?thesis
    by (rule live_removed [OF assms, of _ k])
       (simp_all add: cancelTask_eq Some live_filter [OF assms Some] AList.delete_conv')
qed

lemma createTask_esm_live:
  assumes "live st" and "ids_ok st"
  shows "live (snd (createTask EsmBundle now t cb st))"
proof -
  have fresh: "map_of (tasks st) (nextTaskId st) = None"
    using assms(2) by (cases "map_of (tasks st) (nextTaskId st)") (auto simp: ids_ok_def)
  let ?st' = "snd (createTask EsmBundle now t cb st)"
  let ?task = "\<lparr>id_task = nextTaskId st, targetTime = t, callback = cb,
    timeoutId = Some (nextTimer st)\<rparr>"
  have a: "timers ?st' = filter (\<lambda>x. fires x \<noteq> nextTaskId st) (timers st) @
      [\<lparr>handle = nextTimer st, fires = nextTaskId st,
        delay = (if gt0 (sub (getTime t) (Num now)) then sub (getTime t) (Num now)
                 else Num 0)\<rparr>]"
    by (simp add: createTask_esm_eq live_fresh [OF assms(1) fresh])
  have b: "nextTimer ?st' = nextTimer st + 1"
    by (simp add: createTask_esm_eq)
  have c: "map_of (tasks ?st') = (map_of (tasks st))(nextTaskId st \<mapsto> ?task)"
    by (simp add: createTask_esm_eq AList.map_of_map_entry AList.update_conv')
  have d: "timeoutId ?task = Some (nextTimer st)"
    by simp
  show ?thesis
    by (rule live_armed [OF assms(1) a b c d])
qed

lemma createTask_live:
  assumes "live st" and "ids_ok st" and "\<not> raised (fst (step b (Create now t cb) st))"
  shows "live (snd (createTask b now t cb st))"
proof (cases "b = EsmBundle \<or> gt0 (sub (getTime t) (Num now))")
  case True
  then have "createTask b now t cb st = createTask EsmBundle now t cb st"
    by (cases b) (simp_all add: createTask_src_armed)
  then show ?thesis
    using createTask_esm_live [OF assms(1,2)] by simp
next
  case False
  then have b: "b = TaskJs" and due: "\<not> gt0 (sub (getTime t) (Num now))"
    by (cases b; simp)+
  have cb: "cb = Returns"
    using assms(3) by (cases cb) (simp_all add: b createTask_src_due [OF due])
  have fresh: "map_of (tasks st) (nextTaskId st) = None"
    using assms(2) by (cases "map_of (tasks st) (nextTaskId st)") (auto simp: ids_ok_def)
  have "(map_of (tasks st))(nextTaskId st := None) = map_of (tasks st)"
    using fresh by (simp add: fun_upd_idem)
  then have "live (snd (createTask TaskJs now t Returns st)) = live st"
    by (intro live_cong) (simp_all add: createTask_src_due [OF due] AList.delete_conv')
  then show ?thesis
    using assms(1) by (simp add: b cb)
qed

lemma rescheduleTask_esm_live:
  assumes "live st" and "ids_ok st"
  shows "live (snd (rescheduleTask EsmBundle now k t st))"
proof (cases "map_of (tasks st) k")
  case None
  then show ?thesis using assms by (simp add: rescheduleTask_absent)
next
  case (Some task)
  then have i: "id_task task = k"
    using assms(2) by (simp add: ids_ok_def)
  let ?st' = "snd (rescheduleTask EsmBundle now k t st)"
  let ?task = "task\<lparr>targetTime := t, timeoutId := Some (nextTimer st)\<rparr>"
  have a: "timers ?st' = filter (\<lambda>x. fires x \<noteq> k) (timers st) @
      [\<lparr>handle = nextTimer st, fires = k,
        delay = (if gt0 (sub (getTime t) (Num now)) then sub (getTime t) (Num now)
                 else Num 0)\<rparr>]"
    by (simp add: rescheduleTask_esm_eq [OF Some] live_filter [OF assms(1) Some] i)
  have b: "nextTimer ?st' = nextTimer st + 1"
    by (simp add: rescheduleTask_esm_eq [OF Some])
  have c: "map_of (tasks ?st') = (map_of (tasks st))(k \<mapsto> ?task)"
    by (rule rescheduleTask_esm_tasks [OF Some i])
  have d: "timeoutId ?task = Some (nextTimer st)"
    by simp
  show ?thesis
    by (rule live_armed [OF assms(1) a b c d])
qed

lemma rescheduleTask_live:
  assumes "live st" and "ids_ok st" and "\<not> raised (fst (step b (Reschedule now k t) st))"
  shows "live (snd (rescheduleTask b now k t st))"
proof (cases "b = EsmBundle \<or> gt0 (sub (getTime t) (Num now))")
  case True
  then have "rescheduleTask b now k t st = rescheduleTask EsmBundle now k t st"
    by (cases b) (simp_all add: rescheduleTask_src_armed)
  then show ?thesis
    using rescheduleTask_esm_live [OF assms(1,2)] by simp
next
  case False
  then have b: "b = TaskJs" and due: "\<not> gt0 (sub (getTime t) (Num now))"
    by (cases b; simp)+
  show ?thesis
  proof (cases "map_of (tasks st) k")
    case None
    then show ?thesis using assms(1) by (simp add: rescheduleTask_absent)
  next
    case (Some task)
    then have i: "id_task task = k"
      using assms(2) by (simp add: ids_ok_def)
    have cb: "callback task = Returns"
      using assms(3)
      by (cases "callback task") (simp_all add: b rescheduleTask_src_due [OF Some i due])
    show ?thesis
      unfolding b
      by (rule live_removed [OF assms(1), of _ k])
         (simp_all add: rescheduleTask_src_due [OF Some i due] cb
            live_filter [OF assms(1) Some] AList.delete_conv')
  qed
qed

lemma fire_live:
  assumes "live st" and "\<not> raised (fst (step b (Timeout h) st))"
  shows "live (snd (fire h st))"
proof (cases "find (\<lambda>t. handle t = h) (timers st)")
  case None
  then show ?thesis using assms(1) by (simp add: fire_def)
next
  case (Some x)
  then have x: "x \<in> set (timers st)" and h: "handle x = h"
    by (auto simp: find_Some_iff)
  obtain task where task: "map_of (tasks st) (fires x) = Some task"
    and tid: "timeoutId task = Some h"
    using assms(1) x h unfolding live_def by blast
  have f: "filter (\<lambda>t. handle t \<noteq> h) (timers st) = filter (\<lambda>t. fires t \<noteq> fires x) (timers st)"
    using live_filter [OF assms(1) task] by (simp add: tid)
  have cb: "callback task = Returns"
    using assms(2) by (cases "callback task") (simp_all add: fire_def Some executeTask_eq task)
  show ?thesis
    by (rule live_removed [OF assms(1), of _ "fires x"])
       (simp_all add: fire_def Some executeTask_eq task cb f AList.delete_conv')
qed

lemma step_live:
  assumes "live st" and "ids_ok st" and "\<not> raised (fst (step b x st))" and "\<not> stale x"
  shows "live (snd (step b x st))"
  unfolding snd_step using assms
  by (cases x)
     (simp_all only: op.case createTask_live rescheduleTask_live cancelTask_live fire_live
        stale.simps not_True_eq_False)

lemma run_live:
  "live st \<Longrightarrow> ids_ok st \<Longrightarrow> \<forall>r \<in> set (fst (run b xs st)). \<not> raised r \<Longrightarrow>
   \<forall>x \<in> set xs. \<not> stale x \<Longrightarrow> live (snd (run b xs st))"
proof (induction xs arbitrary: st)
  case Nil
  then show ?case by simp
next
  case (Cons x xs)
  have quiet: "\<not> raised (fst (step b x st))"
    and rest: "\<forall>r \<in> set (fst (run b xs (snd (step b x st)))). \<not> raised r"
    using Cons.prems(3) by (simp_all add: fst_run_Cons del: run.simps)
  have l: "live (snd (step b x st))"
    using step_live [OF Cons.prems(1,2) quiet] Cons.prems(4) by simp
  have i: "ids_ok (snd (step b x st))"
    by (rule step_ids_ok [OF Cons.prems(2)])
  show ?case
    unfolding snd_run_Cons using Cons.IH [OF l i rest] Cons.prems(4) by simp
qed

section \<open>What the snapshot shares with the registry\<close>

lemma copyAll_frame:
  "free h \<le> free (snd (copyAll as h)) \<and>
   refs (snd (copyAll as h)) = refs h \<and>
   (\<forall>a < free h. store (snd (copyAll as h)) a = store h a) \<and>
   (\<forall>e \<in> set (fst (copyAll as h)). free h \<le> e \<and> e < free (snd (copyAll as h)))"
proof (induction as arbitrary: h)
  case Nil
  show ?case by simp
next
  case (Cons a as)
  show ?case
  proof (cases "\<exists>i d cb tid. store h a = Some (TaskObj i d cb tid)")
    case True
    then obtain i d cb tid where t: "store h a = Some (TaskObj i d cb tid)"
      by blast
    let ?h1 = "h\<lparr>store := (store h)(free h \<mapsto> EntryObj i d), free := free h + 1\<rparr>"
    have eq: "copyAll (a # as) h = (free h # fst (copyAll as ?h1), snd (copyAll as ?h1))"
      by (simp add: t alloc_def split_beta)
    show ?thesis
      unfolding eq using Cons.IH [of ?h1] by auto
  next
    case False
    then have "copyAll (a # as) h = copyAll as h"
      by (auto split: option.splits obj.splits)
    then show ?thesis using Cons.IH [of h] by simp
  qed
qed

lemma task_ok_frame:
  assumes "task_ok h a" and "\<forall>x < free h. store h' x = store h x" and "free h \<le> free h'"
  shows "task_ok h' a" and "task_at h' a = task_at h a" and "date_of h' a = date_of h a"
  using assms
  by (auto simp: task_ok_def task_at_def date_of_def split: option.splits obj.splits)

lemma copyAll_entries:
  assumes "\<forall>a \<in> set as. task_ok h a"
    and "\<forall>x < free (snd (copyAll as h)). store h' x = store (snd (copyAll as h)) x"
  shows "map (entry_at h') (fst (copyAll as h)) =
     map (\<lambda>a. map_option (\<lambda>task. (id_task task, targetTime task)) (task_at h a)) as \<and>
   map (date_of h') (fst (copyAll as h)) = map (date_of h) as"
  using assms
proof (induction as arbitrary: h)
  case Nil
  show ?case by simp
next
  case (Cons a as)
  from Cons.prems(1) obtain i d cb tid t
    where a: "a < free h" "store h a = Some (TaskObj i d cb tid)"
      and d: "d < free h" "store h d = Some (DateObj t)"
    by (auto simp: task_ok_def split: option.splits obj.splits)
  let ?h1 = "h\<lparr>store := (store h)(free h \<mapsto> EntryObj i d), free := free h + 1\<rparr>"
  let ?h2 = "snd (copyAll as ?h1)"
  have eq: "copyAll (a # as) h = (free h # fst (copyAll as ?h1), ?h2)"
    by (simp add: a alloc_def split_beta)
  have old: "\<forall>x < free h. store ?h1 x = store h x" and le: "free h \<le> free ?h1"
    by simp_all
  have ok1: "\<forall>x \<in> set as. task_ok ?h1 x"
    using Cons.prems(1) task_ok_frame(1) [OF _ old le] by simp
  have ext: "\<forall>x < free ?h2. store h' x = store ?h2 x"
    using Cons.prems(2) unfolding eq snd_conv .
  note frame = copyAll_frame [of ?h1 as]
  have lt: "free h < free ?h2"
    using frame by simp
  have e: "store h' (free h) = Some (EntryObj i d)"
    using frame ext lt by simp
  have d2: "store h' d = Some (DateObj t)"
    using frame ext lt d by simp
  have head: "entry_at h' (free h) = Some (i, t)" "date_of h' (free h) = Some d"
    using e d2 by (simp_all add: entry_at_def date_of_def)
  have here: "task_at h a = Some \<lparr>id_task = i, targetTime = t, callback = cb, timeoutId = tid\<rparr>"
    "date_of h a = Some d"
    by (simp_all add: task_at_def date_of_def a d)
  have same: "map (\<lambda>a. map_option (\<lambda>task. (id_task task, targetTime task)) (task_at ?h1 a)) as =
      map (\<lambda>a. map_option (\<lambda>task. (id_task task, targetTime task)) (task_at h a)) as"
    "map (date_of ?h1) as = map (date_of h) as"
    using Cons.prems(1) task_ok_frame(2,3) [OF _ old le] by (auto intro!: map_cong)
  show ?case
    unfolding eq fst_conv snd_conv list.map
    using Cons.IH [OF ok1 ext] unfolding same by (simp add: head here)
qed

lemma tasks_of_cong:
  "refs h' = refs h \<Longrightarrow> \<forall>a \<in> snd ` set (refs h). task_at h' a = task_at h a \<Longrightarrow>
   tasks_of h' = tasks_of h"
  unfolding tasks_of_def
  by (auto intro!: arg_cong [where f = concat] map_cong)

lemma entries_of_map:
  "entries_of h es = concat (map (\<lambda>x. case x of Some p \<Rightarrow> [p] | None \<Rightarrow> []) (map (entry_at h) es))"
  by (simp add: entries_of_def comp_def)

lemma getTasks_store_eq:
  "getTasks_store h =
     (free (snd (copyAll (map snd (refs h)) h)),
      (snd (copyAll (map snd (refs h)) h))
        \<lparr>store := (store (snd (copyAll (map snd (refs h)) h)))
           (free (snd (copyAll (map snd (refs h)) h)) \<mapsto>
              ArrayObj (fst (copyAll (map snd (refs h)) h))),
         free := free (snd (copyAll (map snd (refs h)) h)) + 1\<rparr>)"
  by (simp add: getTasks_store_def alloc_def split_beta)

lemma getTasks_store_snapshot:
  assumes "heap_ok h"
  shows "array_of (snd (getTasks_store h)) (fst (getTasks_store h)) =
           fst (copyAll (map snd (refs h)) h)"
    and "entries_of (snd (getTasks_store h))
           (array_of (snd (getTasks_store h)) (fst (getTasks_store h))) =
         map (\<lambda>(k, task). (id_task task, targetTime task)) (tasks_of h)"
    and "map (date_of (snd (getTasks_store h)))
           (array_of (snd (getTasks_store h)) (fst (getTasks_store h))) =
         map (date_of h) (map snd (refs h))"
    and "refs (snd (getTasks_store h)) = refs h"
    and "\<forall>a < free h. store (snd (getTasks_store h)) a = store h a"
    and "free h \<le> free (snd (getTasks_store h))"
    and "\<forall>a \<in> insert (fst (getTasks_store h))
           (set (array_of (snd (getTasks_store h)) (fst (getTasks_store h)))). free h \<le> a"
proof -
  let ?es = "fst (copyAll (map snd (refs h)) h)"
  let ?h1 = "snd (copyAll (map snd (refs h)) h)"
  note frame = copyAll_frame [of h "map snd (refs h)"]
  have ok: "\<forall>a \<in> set (map snd (refs h)). task_ok h a"
    using assms by (simp add: heap_ok_def)
  show arr: "array_of (snd (getTasks_store h)) (fst (getTasks_store h)) = ?es"
    by (simp add: getTasks_store_eq array_of_def)
  have "\<forall>x < free ?h1. store (snd (getTasks_store h)) x = store ?h1 x"
    by (simp add: getTasks_store_eq)
  note copied = copyAll_entries [OF ok this]
  have tasks: "map (\<lambda>a. map_option (\<lambda>task. (id_task task, targetTime task)) (task_at h a))
        (map snd (refs h)) =
      map (\<lambda>(k, a). map_option (\<lambda>task. (id_task task, targetTime task)) (task_at h a)) (refs h)"
    by (simp add: comp_def split_beta)
  show "entries_of (snd (getTasks_store h))
           (array_of (snd (getTasks_store h)) (fst (getTasks_store h))) =
         map (\<lambda>(k, task). (id_task task, targetTime task)) (tasks_of h)"
    unfolding arr entries_of_map using copied
    by (simp add: tasks_of_def map_concat comp_def split_beta option.case_distrib
        cong: option.case_cong)
  show "map (date_of (snd (getTasks_store h)))
           (array_of (snd (getTasks_store h)) (fst (getTasks_store h))) =
         map (date_of h) (map snd (refs h))"
    unfolding arr using copied by simp
  show "refs (snd (getTasks_store h)) = refs h"
    using frame by (simp add: getTasks_store_eq)
  show "\<forall>a < free h. store (snd (getTasks_store h)) a = store h a"
    using frame by (auto simp: getTasks_store_eq)
  show "free h \<le> free (snd (getTasks_store h))"
    using frame by (simp add: getTasks_store_eq)
  show "\<forall>a \<in> insert (fst (getTasks_store h))
           (set (array_of (snd (getTasks_store h)) (fst (getTasks_store h)))). free h \<le> a"
    unfolding arr using frame by (auto simp: getTasks_store_eq)
qed

lemma getTasks_store_mutation:
  assumes "heap_ok h"
    and "a \<in> insert (fst (getTasks_store h))
           (set (array_of (snd (getTasks_store h)) (fst (getTasks_store h))))"
  shows "tasks_of (snd (getTasks_store h)) = tasks_of h"
    and "tasks_of ((snd (getTasks_store h))\<lparr>store := (store (snd (getTasks_store h)))(a := v)\<rparr>) =
         tasks_of h"
proof -
  note snap = getTasks_store_snapshot [OF assms(1)]
  have fresh: "free h \<le> a"
    using snap(7) assms(2) by blast
  have ok: "task_ok h x" if "x \<in> snd ` set (refs h)" for x
    using assms(1) that by (auto simp: heap_ok_def)
  show "tasks_of (snd (getTasks_store h)) = tasks_of h"
    using task_ok_frame(2) [OF ok snap(5,6)] by (intro tasks_of_cong) (simp_all add: snap(4))
  have "\<forall>x < free h.
      store ((snd (getTasks_store h))\<lparr>store := (store (snd (getTasks_store h)))(a := v)\<rparr>) x =
      store h x"
    using fresh snap(5) by simp
  from task_ok_frame(2) [OF ok this]
  show "tasks_of ((snd (getTasks_store h))\<lparr>store := (store (snd (getTasks_store h)))(a := v)\<rparr>) =
         tasks_of h"
    using snap(6) by (intro tasks_of_cong) (simp_all add: snap(4))
qed

lemma getTasks_store_shared:
  assumes "heap_ok h" and "a \<in> snd ` set (refs h)" and "date_of h a = Some d"
  shows "task_at ((snd (getTasks_store h))
           \<lparr>store := (store (snd (getTasks_store h)))(d \<mapsto> DateObj t)\<rparr>) a =
         map_option (\<lambda>task. task\<lparr>targetTime := t\<rparr>) (task_at h a)"
proof -
  note snap = getTasks_store_snapshot [OF assms(1)]
  have "task_ok h a"
    using assms(1,2) by (auto simp: heap_ok_def)
  then obtain i cb tid t0
    where a: "a < free h" "store h a = Some (TaskObj i d cb tid)"
      and d: "d < free h" "store h d = Some (DateObj t0)"
    using assms(3) by (auto simp: task_ok_def date_of_def split: option.splits obj.splits)
  have "a \<noteq> d"
    using a(2) d(2) by auto
  then show ?thesis
    using snap(5) a d by (simp add: task_at_def)
qed

lemma getTasks_by_key:
  assumes "ids_ok st"
  shows "getTasks st = map (\<lambda>(k, task). (k, targetTime task)) (tasks st)"
proof -
  have d: "distinct (map fst (tasks st))"
    using assms by (simp add: ids_ok_def strict_sorted_iff)
  have "id_task task = k" if "(k, task) \<in> set (tasks st)" for k task
    using assms map_of_is_SomeI [OF d that] by (simp add: ids_ok_def)
  then show ?thesis
    unfolding getTasks_def by (intro map_cong) auto
qed

section \<open>Which tasks are in the map\<close>

lemma keys_image:
  "fst ` set (AList.map_entry k f al) = fst ` set al"
  "fst ` set (AList.delete k al) = fst ` set al - {k}"
  "fst ` set (AList.update k v al) = insert k (fst ` set al)"
  using arg_cong [OF keys_map_entry [of k f al], of set]
    arg_cong [OF AList.delete_keys [of k al], of set]
    arg_cong [OF AList.update_keys [of k v al], of set]
  by (auto simp only: set_map set_removeAll set_append list.set split: if_splits)

lemma settled_eq: "settled st = set (map fst (tasks st)) \<union> set (completed st)"
  by (simp add: settled_def)

lemma completed_simps:
  "completed (st'\<lparr>calls := cs @ [c]\<rparr>) =
     completed (st'\<lparr>calls := cs\<rparr>) @ (if returned c then [callee c] else [])"
  "completed (st'\<lparr>calls := calls st\<rparr>) = completed st"
  "completed (st\<lparr>tasks := ts\<rparr>) = completed st"
  "completed (st\<lparr>timers := xs\<rparr>) = completed st"
  "completed (st\<lparr>nextTimer := n\<rparr>) = completed st"
  "completed (st\<lparr>nextTaskId := n\<rparr>) = completed st"
  by (simp_all add: completed_def)

lemma executeTask_settled: "settled (snd (executeTask j st)) = settled st"
proof (cases "map_of (tasks st) j")
  case None
  then show ?thesis by (simp add: executeTask_eq)
next
  case (Some task)
  then have "j \<in> fst ` set (tasks st)"
    by (rule map_of_Some_key)
  then show ?thesis
    using Some
    by (cases "callback task") (auto simp: executeTask_eq settled_def completed_simps keys_image)
qed

lemma armed_settled:
  "settled (st\<lparr>timers := ts, nextTimer := n, tasks := AList.map_entry k f (tasks st)\<rparr>) =
   settled st"
  by (simp add: settled_def completed_simps keys_image)

lemma scheduleTask_settled: "settled (snd (scheduleTask b now task st)) = settled st"
  by (cases b)
     (simp_all add: scheduleTask_def scheduleTask_esm_eq scheduleTask_src_eq executeTask_settled
        armed_settled)

lemma createTask_settled:
  "settled (snd (createTask b now t cb st)) = insert (nextTaskId st) (settled st)"
  by (simp add: snd_createTask scheduleTask_settled)
     (simp add: settled_def completed_simps keys_image)

lemma rescheduleTask_settled: "settled (snd (rescheduleTask b now k t st)) = settled st"
  by (simp add: snd_rescheduleTask scheduleTask_settled split: option.splits)
     (simp add: settled_def completed_simps assign_def clearTimeout_def keys_image
        split: option.splits)

lemma fire_settled: "settled (snd (fire h st)) = settled st"
  by (simp add: snd_fire executeTask_settled split: option.splits)
     (simp add: settled_def completed_simps)

lemma completed_apart:
  assumes "log_ok st"
  shows "set (map fst (tasks st)) \<inter> set (completed st) = {}"
proof -
  have "k \<notin> set (map fst (tasks st))" if "k \<in> set (completed st)" for k
  proof -
    from that obtain c where "c \<in> set (calls st)" "returned c" "callee c = k"
      by (auto simp: completed_def)
    then have "map_of (tasks st) k = None"
      using assms by (auto simp: log_ok_def)
    then show ?thesis
      by (simp add: map_of_eq_None_iff)
  qed
  then show ?thesis by blast
qed

lemma cancelTask_settled:
  assumes "ids_ok st" and "log_ok st"
  shows "settled (snd (cancelTask k st)) =
     settled st - set (cancelled [Cancel k] [Answered (fst (cancelTask k st))])"
    and "set (cancelled [Cancel k] [Answered (fst (cancelTask k st))]) \<subseteq> {..<nextTaskId st}"
proof -
  show "set (cancelled [Cancel k] [Answered (fst (cancelTask k st))]) \<subseteq> {..<nextTaskId st}"
    using assms(1) by (cases "map_of (tasks st) k") (simp_all add: cancelTask_eq ids_ok_def)
  show "settled (snd (cancelTask k st)) =
     settled st - set (cancelled [Cancel k] [Answered (fst (cancelTask k st))])"
  proof (cases "map_of (tasks st) k")
    case None
    then show ?thesis by (simp add: cancelTask_eq)
  next
    case (Some task)
    then have "k \<in> set (map fst (tasks st))"
      by (auto dest: map_of_Some_key)
    then have "k \<notin> set (completed st)"
      using completed_apart [OF assms(2)] by auto
    then show ?thesis
      using Some by (auto simp: cancelTask_eq settled_def completed_simps keys_image)
  qed
qed

lemma step_settled:
  assumes "ids_ok st" and "log_ok st"
  shows "settled (snd (step b x st)) =
     (settled st \<union> {nextTaskId st ..< nextTaskId st + creates [x]}) -
     set (cancelled [x] [fst (step b x st)])"
    and "set (cancelled [x] [fst (step b x st)]) \<subseteq> {..<nextTaskId st}"
proof -
  have c: "fst (step b (Cancel k) st) = Answered (fst (cancelTask k st))" for k
    by (simp add: split_beta)
  show "set (cancelled [x] [fst (step b x st)]) \<subseteq> {..<nextTaskId st}"
    using cancelTask_settled(2) [OF assms] by (cases x) (simp_all only: c, simp_all)
  show "settled (snd (step b x st)) =
     (settled st \<union> {nextTaskId st ..< nextTaskId st + creates [x]}) -
     set (cancelled [x] [fst (step b x st)])"
  proof (cases x)
    case (Cancel k)
    show ?thesis
      unfolding Cancel c snd_step using cancelTask_settled(1) [OF assms, of k] by simp
  qed (unfold snd_step, simp_all add: createTask_settled rescheduleTask_settled fire_settled
        executeTask_settled)
qed

lemma cancelled_Cons:
  "cancelled (x # xs) (r # rs) = cancelled [x] [r] @ cancelled xs rs"
proof (cases r)
  case (Answered a)
  then show ?thesis by (cases x; cases a) simp_all
qed (cases x; simp)+

lemma run_settled:
  assumes "ids_ok st" and "log_ok st"
  shows "settled (snd (run b xs st)) =
     (settled st \<union> {nextTaskId st ..< nextTaskId st + creates xs}) -
     set (cancelled xs (fst (run b xs st))) \<and>
   set (cancelled xs (fst (run b xs st))) \<subseteq> {..<nextTaskId st + creates xs}"
  using assms
proof (induction xs arbitrary: st)
  case Nil
  show ?case by simp
next
  case (Cons x xs)
  let ?st1 = "snd (step b x st)"
  note s = step_settled [OF Cons.prems, where b = b and x = x]
  have n1: "nextTaskId ?st1 = nextTaskId st + creates [x]"
    by (rule step_nextTaskId)
  note ih = Cons.IH [OF step_ids_ok [OF Cons.prems(1), of b x]
      step_log_ok [OF Cons.prems, of b x]]
  have c: "cancelled (x # xs) (fst (run b (x # xs) st)) =
      cancelled [x] [fst (step b x st)] @ cancelled xs (fst (run b xs ?st1))"
    by (simp only: fst_run_Cons cancelled_Cons [of x xs])
  have n: "creates (x # xs) = creates [x] + creates xs"
    by (rule creates_Cons)
  show ?case
    unfolding snd_run_Cons c n using ih s unfolding n1
    by (simp only: set_append) (auto simp: add.assoc)
qed

lemma run_listed:
  "set (map fst (tasks (snd (run b ops constructor)))) =
     {1..creates ops} - set (completed (snd (run b ops constructor))) -
     set (cancelled ops (fst (run b ops constructor)))"
proof -
  let ?st = "snd (run b ops constructor)"
  have "log_ok ?st"
    by (rule run_log_ok [OF ids_ok_constructor log_ok_constructor])
  note apart = completed_apart [OF this]
  have "set (map fst (tasks ?st)) \<union> set (completed ?st) =
      {1..creates ops} - set (cancelled ops (fst (run b ops constructor)))"
    using run_settled [OF ids_ok_constructor log_ok_constructor, of b ops]
    unfolding settled_eq
    by (simp add: constructor_def completed_def atLeastLessThanSuc_atLeastAtMost)
  with apart show ?thesis by blast
qed

section \<open>Firing a timer whose task is gone\<close>

text \<open>
  C1, amended. \<^verbatim>\<open>_executeTask\<close> on an id that is not in the map invokes no callback,
  leaves the whole state as it was and returns without an error. In every sequence of
  operations on a new manager, in both builds and with superseded timers firing at any
  point, a callback whose invocation returned is never invoked again; so when no
  invocation raised, no task's callback ran twice. (An invocation that raises leaves the
  task in the map, and a later expiry invokes the callback once more.)
\<close>

theorem stale_fire_noop_no_rerun:
  "(map_of (tasks st) k = None \<longrightarrow> executeTask k st = (Return (), st)) \<and>
   no_rerun (calls (snd (run b ops constructor))) \<and>
   ((\<forall>c \<in> set (calls (snd (run b ops constructor))). returned c) \<longrightarrow>
      distinct (map callee (calls (snd (run b ops constructor)))))"
proof -
  have "log_ok (snd (run b ops constructor))"
    by (rule run_log_ok [OF ids_ok_constructor log_ok_constructor])
  then have "no_rerun (calls (snd (run b ops constructor)))"
    by (simp add: log_ok_def)
  then show ?thesis
    by (simp add: executeTask_def no_rerun_distinct)
qed

theorem stale_fire_noop_no_rerun_witness:
  "map_of (tasks constructor) 1 = None \<and>
   executeTask 1 constructor = (Return (), constructor) \<and>
   map returned (calls (snd (run EsmBundle
     [Create 0 (Date 10) Returns, Reschedule 5 1 (Date 20), Stale 1, Timeout 2, Stale 1]
     constructor))) = [True] \<and>
   no_rerun (calls (snd (run EsmBundle
     [Create 0 (Date 10) Returns, Reschedule 5 1 (Date 20), Stale 1, Timeout 2, Stale 1]
     constructor))) \<and>
   distinct (map callee (calls (snd (run EsmBundle
     [Create 0 (Date 10) Returns, Reschedule 5 1 (Date 20), Stale 1, Timeout 2, Stale 1]
     constructor))))"
proof -
  have a: "map_of (tasks constructor) 1 = None"
    by (simp add: constructor_def)
  have b: "calls (snd (run EsmBundle
     [Create 0 (Date 10) Returns, Reschedule 5 1 (Date 20), Stale 1, Timeout 2, Stale 1]
     constructor)) = [\<lparr>callee = 1, present = [1], returned = True\<rparr>]"
    by code_simp
  show ?thesis
    using a stale_fire_noop_no_rerun [of constructor 1 EsmBundle
        "[Create 0 (Date 10) Returns, Reschedule 5 1 (Date 20), Stale 1, Timeout 2, Stale 1]"]
    by (simp only: b) simp
qed

text \<open>
  C1 as stated fails: a callback that raises is invoked by the first expiry, stays in the
  map, is rescheduled, and is invoked again by the second expiry. In \<^verbatim>\<open>src/task.js\<close>
  no timer is needed: create for a past time invokes it, and so does a reschedule to a
  past time.
\<close>

theorem callback_runs_twice_counterexample:
  "count_list (map callee (calls (snd (run EsmBundle
     [Create 0 (Date 10) Throws, Timeout 1, Reschedule 20 1 (Date 30), Timeout 2]
     constructor)))) 1 = 2 \<and>
   count_list (map callee (calls (snd (run TaskJs
     [Create 1000 (Date 0) Throws, Reschedule 2000 1 (Date 5)] constructor)))) 1 = 2"
  by code_simp

section \<open>Arming: timer or inline execution\<close>

text \<open>
  C2, amended. In \<^verbatim>\<open>index.esm.mjs\<close>, create returns the new id, invokes no callback and
  arms exactly one timer for the new task, whatever the target time: with the delay when it
  is positive, with delay 0 when it is not (a time at or before now, or the invalid date);
  reschedule of an existing task re-arms in the same way. In \<^verbatim>\<open>src/task.js\<close>, create
  and reschedule arm that timer only when the delay is positive; otherwise they arm none
  and the callback is invoked before create or reschedule returns.
\<close>

theorem create_reschedule_arming:
  "fst (createTask EsmBundle now t cb st) = Return (nextTaskId st) \<and>
   calls (snd (createTask EsmBundle now t cb st)) = calls st \<and>
   timers (snd (createTask EsmBundle now t cb st)) =
     timers st @
       [\<lparr>handle = nextTimer st, fires = nextTaskId st,
         delay = (if gt0 (sub (getTime t) (Num now)) then sub (getTime t) (Num now)
                  else Num 0)\<rparr>] \<and>
   (map_of (tasks st) k = Some task \<longrightarrow>
      fst (rescheduleTask EsmBundle now k t st) = Return True \<and>
      calls (snd (rescheduleTask EsmBundle now k t st)) = calls st \<and>
      timers (snd (rescheduleTask EsmBundle now k t st)) =
        filter (\<lambda>x. Some (handle x) \<noteq> timeoutId task) (timers st) @
          [\<lparr>handle = nextTimer st, fires = id_task task,
            delay = (if gt0 (sub (getTime t) (Num now)) then sub (getTime t) (Num now)
                     else Num 0)\<rparr>]) \<and>
   timers (snd (createTask TaskJs now t cb st)) =
     (if gt0 (sub (getTime t) (Num now))
      then timers st @
        [\<lparr>handle = nextTimer st, fires = nextTaskId st, delay = sub (getTime t) (Num now)\<rparr>]
      else timers st) \<and>
   map callee (calls (snd (createTask TaskJs now t cb st))) =
     (if gt0 (sub (getTime t) (Num now)) \<or> cb = NotAFunction then map callee (calls st)
      else map callee (calls st) @ [nextTaskId st]) \<and>
   (map_of (tasks st) k = Some task \<and> id_task task = k \<longrightarrow>
      timers (snd (rescheduleTask TaskJs now k t st)) =
        (if gt0 (sub (getTime t) (Num now))
         then filter (\<lambda>x. Some (handle x) \<noteq> timeoutId task) (timers st) @
           [\<lparr>handle = nextTimer st, fires = k, delay = sub (getTime t) (Num now)\<rparr>]
         else filter (\<lambda>x. Some (handle x) \<noteq> timeoutId task) (timers st)) \<and>
      map callee (calls (snd (rescheduleTask TaskJs now k t st))) =
        (if gt0 (sub (getTime t) (Num now)) \<or> callback task = NotAFunction
         then map callee (calls st)
         else map callee (calls st) @ [k]))"
proof -
  have esm_create:
    "fst (createTask EsmBundle now t cb st) = Return (nextTaskId st) \<and>
     calls (snd (createTask EsmBundle now t cb st)) = calls st \<and>
     timers (snd (createTask EsmBundle now t cb st)) =
       timers st @
         [\<lparr>handle = nextTimer st, fires = nextTaskId st,
           delay = (if gt0 (sub (getTime t) (Num now)) then sub (getTime t) (Num now)
                    else Num 0)\<rparr>]"
    by (simp add: createTask_esm_eq)
  have esm_reschedule:
    "map_of (tasks st) k = Some task \<longrightarrow>
      fst (rescheduleTask EsmBundle now k t st) = Return True \<and>
      calls (snd (rescheduleTask EsmBundle now k t st)) = calls st \<and>
      timers (snd (rescheduleTask EsmBundle now k t st)) =
        filter (\<lambda>x. Some (handle x) \<noteq> timeoutId task) (timers st) @
          [\<lparr>handle = nextTimer st, fires = id_task task,
            delay = (if gt0 (sub (getTime t) (Num now)) then sub (getTime t) (Num now)
                     else Num 0)\<rparr>]"
    by (simp add: rescheduleTask_esm_eq)
  have src_create_timers:
    "timers (snd (createTask TaskJs now t cb st)) =
     (if gt0 (sub (getTime t) (Num now))
      then timers st @
        [\<lparr>handle = nextTimer st, fires = nextTaskId st, delay = sub (getTime t) (Num now)\<rparr>]
      else timers st)"
    by (cases cb; cases "gt0 (sub (getTime t) (Num now))")
       (simp_all add: createTask_src_armed createTask_src_due createTask_esm_eq)
  have src_create_calls:
    "map callee (calls (snd (createTask TaskJs now t cb st))) =
     (if gt0 (sub (getTime t) (Num now)) \<or> cb = NotAFunction then map callee (calls st)
      else map callee (calls st) @ [nextTaskId st])"
    by (cases cb; cases "gt0 (sub (getTime t) (Num now))")
       (simp_all add: createTask_src_armed createTask_src_due createTask_esm_eq)
  have src_reschedule:
    "map_of (tasks st) k = Some task \<and> id_task task = k \<longrightarrow>
      timers (snd (rescheduleTask TaskJs now k t st)) =
        (if gt0 (sub (getTime t) (Num now))
         then filter (\<lambda>x. Some (handle x) \<noteq> timeoutId task) (timers st) @
           [\<lparr>handle = nextTimer st, fires = k, delay = sub (getTime t) (Num now)\<rparr>]
         else filter (\<lambda>x. Some (handle x) \<noteq> timeoutId task) (timers st)) \<and>
      map callee (calls (snd (rescheduleTask TaskJs now k t st))) =
        (if gt0 (sub (getTime t) (Num now)) \<or> callback task = NotAFunction
         then map callee (calls st)
         else map callee (calls st) @ [k])"
    by (cases "callback task"; cases "gt0 (sub (getTime t) (Num now))")
       (auto simp: rescheduleTask_src_armed rescheduleTask_src_due rescheduleTask_esm_eq)
  show ?thesis
    using esm_create esm_reschedule src_create_timers src_create_calls src_reschedule
    by blast
qed

theorem create_reschedule_arming_witness:
  "map_of (tasks \<lparr>tasks = [(1, \<lparr>id_task = 1, targetTime = Date 10, callback = Returns,
       timeoutId = Some 1\<rparr>)], nextTaskId = 2,
       timers = [\<lparr>handle = 1, fires = 1, delay = Num 10\<rparr>], nextTimer = 2, calls = []\<rparr>) 1 =
     Some \<lparr>id_task = 1, targetTime = Date 10, callback = Returns, timeoutId = Some 1\<rparr> \<and>
   timers (snd (rescheduleTask EsmBundle 20 1 (Date 5)
     \<lparr>tasks = [(1, \<lparr>id_task = 1, targetTime = Date 10, callback = Returns,
       timeoutId = Some 1\<rparr>)], nextTaskId = 2,
       timers = [\<lparr>handle = 1, fires = 1, delay = Num 10\<rparr>], nextTimer = 2, calls = []\<rparr>)) =
     [\<lparr>handle = 2, fires = 1, delay = Num 0\<rparr>] \<and>
   calls (snd (rescheduleTask EsmBundle 20 1 (Date 5)
     \<lparr>tasks = [(1, \<lparr>id_task = 1, targetTime = Date 10, callback = Returns,
       timeoutId = Some 1\<rparr>)], nextTaskId = 2,
       timers = [\<lparr>handle = 1, fires = 1, delay = Num 10\<rparr>], nextTimer = 2, calls = []\<rparr>)) = [] \<and>
   timers (snd (rescheduleTask TaskJs 20 1 (Date 5)
     \<lparr>tasks = [(1, \<lparr>id_task = 1, targetTime = Date 10, callback = Returns,
       timeoutId = Some 1\<rparr>)], nextTaskId = 2,
       timers = [\<lparr>handle = 1, fires = 1, delay = Num 10\<rparr>], nextTimer = 2, calls = []\<rparr>)) = [] \<and>
   map callee (calls (snd (rescheduleTask TaskJs 20 1 (Date 5)
     \<lparr>tasks = [(1, \<lparr>id_task = 1, targetTime = Date 10, callback = Returns,
       timeoutId = Some 1\<rparr>)], nextTaskId = 2,
       timers = [\<lparr>handle = 1, fires = 1, delay = Num 10\<rparr>], nextTimer = 2, calls = []\<rparr>))) = [1]"
  using create_reschedule_arming [of 20 "Date 5" Returns
      "\<lparr>tasks = [(1, \<lparr>id_task = 1, targetTime = Date 10, callback = Returns,
         timeoutId = Some 1\<rparr>)], nextTaskId = 2,
         timers = [\<lparr>handle = 1, fires = 1, delay = Num 10\<rparr>], nextTimer = 2, calls = []\<rparr>"
      1 "\<lparr>id_task = 1, targetTime = Date 10, callback = Returns, timeoutId = Some 1\<rparr>"]
  by simp

text \<open>
  C2 as stated fails on \<^verbatim>\<open>src/task.js\<close>: created at time 1000 for time 0, the task gets
  no timer and its callback has run when create returns.
\<close>

theorem create_runs_callback_inline_counterexample:
  "timers (snd (createTask TaskJs 1000 (Date 0) Returns constructor)) = [] \<and>
   map callee (calls (snd (createTask TaskJs 1000 (Date 0) Returns constructor))) = [1]"
  by code_simp

section \<open>Removal after the callback\<close>

text \<open>
  C3, amended. When \<^verbatim>\<open>_executeTask\<close> invokes a task's callback and the callback returns,
  the task is removed from the map afterwards: whenever a fire of an id returns normally,
  the map holds no entry for that id (and every other entry is as before). When the
  callback raises (or is no function), the error leaves \<^verbatim>\<open>_executeTask\<close> and the map is
  as it was: the entry stays.
\<close>

theorem executeTask_removes_after_return:
  "(fst (executeTask k st) = Return () \<longrightarrow>
      map_of (tasks (snd (executeTask k st))) k = None \<and>
      (\<forall>j. j \<noteq> k \<longrightarrow> map_of (tasks (snd (executeTask k st))) j = map_of (tasks st) j)) \<and>
   (map_of (tasks st) k = Some task \<longrightarrow>
      (callback task = Returns \<longrightarrow>
         executeTask k st =
           (Return (), (logged k True st)\<lparr>tasks := AList.delete k (tasks st)\<rparr>)) \<and>
      (callback task \<noteq> Returns \<longrightarrow>
         (\<exists>e. fst (executeTask k st) = Throw e) \<and>
         tasks (snd (executeTask k st)) = tasks st))"
  by (cases "callback task")
     (auto simp: executeTask_def call_def logged_def AList.delete_conv'
        split: option.splits callback.splits)

theorem executeTask_removes_after_return_witness:
  "map_of (tasks \<lparr>tasks = [(1, \<lparr>id_task = 1, targetTime = Date 10, callback = Returns,
       timeoutId = Some 1\<rparr>)], nextTaskId = 2, timers = [], nextTimer = 2, calls = []\<rparr>) 1 =
     Some \<lparr>id_task = 1, targetTime = Date 10, callback = Returns, timeoutId = Some 1\<rparr> \<and>
   executeTask 1 \<lparr>tasks = [(1, \<lparr>id_task = 1, targetTime = Date 10, callback = Returns,
       timeoutId = Some 1\<rparr>)], nextTaskId = 2, timers = [], nextTimer = 2, calls = []\<rparr> =
     (Return (), \<lparr>tasks = [], nextTaskId = 2, timers = [], nextTimer = 2,
        calls = [\<lparr>callee = 1, present = [1], returned = True\<rparr>]\<rparr>) \<and>
   map_of (tasks (snd (executeTask 1 \<lparr>tasks = [(1, \<lparr>id_task = 1, targetTime = Date 10,
       callback = Returns, timeoutId = Some 1\<rparr>)], nextTaskId = 2, timers = [], nextTimer = 2,
       calls = []\<rparr>))) 1 = None"
  using executeTask_removes_after_return [of 1
      "\<lparr>tasks = [(1, \<lparr>id_task = 1, targetTime = Date 10, callback = Returns,
         timeoutId = Some 1\<rparr>)], nextTaskId = 2, timers = [], nextTimer = 2, calls = []\<rparr>"
      "\<lparr>id_task = 1, targetTime = Date 10, callback = Returns, timeoutId = Some 1\<rparr>"]
  by (simp add: logged_def)

text \<open>
  C3 as stated fails: the timer of a task whose callback raises expires, the error
  propagates, and the task is still in the map.
\<close>

theorem raising_callback_keeps_entry_counterexample:
  "fst (fire 1 (snd (createTask EsmBundle 0 (Date 10) Throws constructor))) =
     Throw CallbackError \<and>
   map fst (tasks (snd (fire 1 (snd (createTask EsmBundle 0 (Date 10) Throws constructor))))) =
     [1]"
  by code_simp

section \<open>Listing\<close>

text \<open>
  C8, amended. \<^verbatim>\<open>getTasks\<close> changes nothing in the state and returns one pair of id and
  target time for every entry of the map. In every state a new manager reaches, in both
  builds, the ids listed are the keys of the map in the map's insertion order, which is
  ascending, so each task is listed once, and the time listed for a task is its current
  target time. The tasks listed are the tasks that were created, without those that a
  cancel removed and those whose callback has returned; a task whose timer went off and
  whose callback raised is still listed. A listed pair has no callback and no timer
  handle. Over the store of objects: the array returned holds these pairs, the array and
  its entry objects are newly allocated, and writing to any of them (or deleting it)
  leaves the registry as it was; but the \<^verbatim>\<open>targetTime\<close> of every entry is the \<^verbatim>\<open>Date\<close>
  object of its task, so that a write to that \<^verbatim>\<open>Date\<close> changes the target time of the
  task in the registry.
\<close>

theorem getTasks_snapshot:
  "step b GetTasks st = (Listed (getTasks st), st) \<and>
   length (getTasks st) = length (tasks st) \<and>
   map fst (getTasks (snd (run b ops constructor))) =
     map fst (tasks (snd (run b ops constructor))) \<and>
   sorted_wrt (<) (map fst (getTasks (snd (run b ops constructor)))) \<and>
   distinct (map fst (getTasks (snd (run b ops constructor)))) \<and>
   (\<forall>k. map_of (getTasks (snd (run b ops constructor))) k =
        map_option targetTime (map_of (tasks (snd (run b ops constructor))) k)) \<and>
   set (map fst (getTasks (snd (run b ops constructor)))) =
     {1..creates ops} - set (completed (snd (run b ops constructor))) -
     set (cancelled ops (fst (run b ops constructor))) \<and>
   (heap_ok h \<and> tasks_of h = tasks st \<longrightarrow>
      entries_of (snd (getTasks_store h))
        (array_of (snd (getTasks_store h)) (fst (getTasks_store h))) = getTasks st \<and>
      tasks_of (snd (getTasks_store h)) = tasks_of h \<and>
      (\<forall>a \<in> insert (fst (getTasks_store h))
          (set (array_of (snd (getTasks_store h)) (fst (getTasks_store h)))).
         \<forall>v. tasks_of ((snd (getTasks_store h))
                 \<lparr>store := (store (snd (getTasks_store h)))(a := v)\<rparr>) = tasks_of h) \<and>
      map (date_of (snd (getTasks_store h)))
        (array_of (snd (getTasks_store h)) (fst (getTasks_store h))) =
        map (date_of h) (map snd (refs h)) \<and>
      (\<forall>a \<in> snd ` set (refs h). \<forall>d t. date_of h a = Some d \<longrightarrow>
         task_at ((snd (getTasks_store h))
             \<lparr>store := (store (snd (getTasks_store h)))(d \<mapsto> DateObj t)\<rparr>) a =
           map_option (\<lambda>task. task\<lparr>targetTime := t\<rparr>) (task_at h a)))"
proof -
  let ?st = "snd (run b ops constructor)"
  have ok: "ids_ok ?st"
    by (rule run_ids_ok [OF ids_ok_constructor])
  have keys: "map fst (getTasks ?st) = map fst (tasks ?st)"
    by (simp add: getTasks_by_key [OF ok] comp_def split_beta)
  have sorted: "sorted_wrt (<) (map fst (getTasks ?st))"
    using ok unfolding keys by (simp add: ids_ok_def)
  then have dist: "distinct (map fst (getTasks ?st))"
    by (simp add: strict_sorted_iff)
  have times: "\<forall>k. map_of (getTasks ?st) k = map_option targetTime (map_of (tasks ?st) k)"
    by (simp add: getTasks_by_key [OF ok] map_of_map)
  have listed: "set (map fst (getTasks ?st)) =
     {1..creates ops} - set (completed ?st) - set (cancelled ops (fst (run b ops constructor)))"
    unfolding keys by (rule run_listed)
  have store: "entries_of (snd (getTasks_store h))
        (array_of (snd (getTasks_store h)) (fst (getTasks_store h))) = getTasks st \<and>
      tasks_of (snd (getTasks_store h)) = tasks_of h \<and>
      (\<forall>a \<in> insert (fst (getTasks_store h))
          (set (array_of (snd (getTasks_store h)) (fst (getTasks_store h)))).
         \<forall>v. tasks_of ((snd (getTasks_store h))
                 \<lparr>store := (store (snd (getTasks_store h)))(a := v)\<rparr>) = tasks_of h) \<and>
      map (date_of (snd (getTasks_store h)))
        (array_of (snd (getTasks_store h)) (fst (getTasks_store h))) =
        map (date_of h) (map snd (refs h)) \<and>
      (\<forall>a \<in> snd ` set (refs h). \<forall>d t. date_of h a = Some d \<longrightarrow>
         task_at ((snd (getTasks_store h))
             \<lparr>store := (store (snd (getTasks_store h)))(d \<mapsto> DateObj t)\<rparr>) a =
           map_option (\<lambda>task. task\<lparr>targetTime := t\<rparr>) (task_at h a))"
    if h: "heap_ok h" and t: "tasks_of h = tasks st"
  proof -
    have a: "entries_of (snd (getTasks_store h))
        (array_of (snd (getTasks_store h)) (fst (getTasks_store h))) = getTasks st"
      using getTasks_store_snapshot(2) [OF h] by (simp add: getTasks_def t)
    have b: "tasks_of (snd (getTasks_store h)) = tasks_of h"
      by (rule getTasks_store_mutation(1) [OF h, where a = "fst (getTasks_store h)"]) simp
    have c: "\<forall>a \<in> insert (fst (getTasks_store h))
          (set (array_of (snd (getTasks_store h)) (fst (getTasks_store h)))).
         \<forall>v. tasks_of ((snd (getTasks_store h))
                 \<lparr>store := (store (snd (getTasks_store h)))(a := v)\<rparr>) = tasks_of h"
      using getTasks_store_mutation(2) [OF h] by blast
    have d: "\<forall>a \<in> snd ` set (refs h). \<forall>d t. date_of h a = Some d \<longrightarrow>
         task_at ((snd (getTasks_store h))
             \<lparr>store := (store (snd (getTasks_store h)))(d \<mapsto> DateObj t)\<rparr>) a =
           map_option (\<lambda>task. task\<lparr>targetTime := t\<rparr>) (task_at h a)"
      using getTasks_store_shared [OF h] by blast
    show ?thesis
      using a b c d getTasks_store_snapshot(3) [OF h] by blast
  qed
  have here: "step b GetTasks st = (Listed (getTasks st), st)"
    "length (getTasks st) = length (tasks st)"
    by (simp_all add: getTasks_def)
  show ?thesis
    using here keys sorted dist times listed store by blast
qed

theorem getTasks_snapshot_witness:
  "run EsmBundle
     [Create 0 (Date 1000) Throws, Create 0 (Date 2000) Returns, Create 0 (Date 2500) Returns,
      Create 0 (Date 50) Returns, Reschedule 5 2 (Date 3000), Cancel 3, Timeout 1, Timeout 4,
      GetTasks] constructor =
     ([Created 1, Created 2, Created 3, Created 4, Answered True, Answered True,
      Raised CallbackError, Done, Listed [(1, Date 1000), (2, Date 3000)]],
      \<lparr>tasks =
         [(1, \<lparr>id_task = 1, targetTime = Date 1000, callback = Throws, timeoutId = Some 1\<rparr>),
          (2, \<lparr>id_task = 2, targetTime = Date 3000, callback = Returns, timeoutId = Some 5\<rparr>)],
       nextTaskId = 5, timers = [\<lparr>handle = 5, fires = 2, delay = Num 2995\<rparr>], nextTimer = 6,
       calls = [\<lparr>callee = 1, present = [1, 2, 4], returned = False\<rparr>,
                \<lparr>callee = 4, present = [1, 2, 4], returned = True\<rparr>]\<rparr>) \<and>
   completed
     \<lparr>tasks =
         [(1, \<lparr>id_task = 1, targetTime = Date 1000, callback = Throws, timeoutId = Some 1\<rparr>),
          (2, \<lparr>id_task = 2, targetTime = Date 3000, callback = Returns, timeoutId = Some 5\<rparr>)],
       nextTaskId = 5, timers = [\<lparr>handle = 5, fires = 2, delay = Num 2995\<rparr>], nextTimer = 6,
       calls = [\<lparr>callee = 1, present = [1, 2, 4], returned = False\<rparr>,
                \<lparr>callee = 4, present = [1, 2, 4], returned = True\<rparr>]\<rparr> = [4] \<and>
   cancelled
     [Create 0 (Date 1000) Throws, Create 0 (Date 2000) Returns, Create 0 (Date 2500) Returns,
      Create 0 (Date 50) Returns, Reschedule 5 2 (Date 3000), Cancel 3, Timeout 1, Timeout 4,
      GetTasks]
     [Created 1, Created 2, Created 3, Created 4, Answered True, Answered True,
      Raised CallbackError, Done, Listed [(1, Date 1000), (2, Date 3000)]] = [3] \<and>
   heap_ok \<lparr>store = [0 \<mapsto> DateObj (Date 1000), 1 \<mapsto> TaskObj 1 0 Throws (Some 1),
               2 \<mapsto> DateObj (Date 3000), 3 \<mapsto> TaskObj 2 2 Returns (Some 5)],
            free = 4, refs = [(1, 1), (2, 3)]\<rparr> \<and>
   tasks_of \<lparr>store = [0 \<mapsto> DateObj (Date 1000), 1 \<mapsto> TaskObj 1 0 Throws (Some 1),
               2 \<mapsto> DateObj (Date 3000), 3 \<mapsto> TaskObj 2 2 Returns (Some 5)],
            free = 4, refs = [(1, 1), (2, 3)]\<rparr> =
     [(1, \<lparr>id_task = 1, targetTime = Date 1000, callback = Throws, timeoutId = Some 1\<rparr>),
          (2, \<lparr>id_task = 2, targetTime = Date 3000, callback = Returns, timeoutId = Some 5\<rparr>)] \<and>
   fst (getTasks_store
          \<lparr>store = [0 \<mapsto> DateObj (Date 1000), 1 \<mapsto> TaskObj 1 0 Throws (Some 1),
               2 \<mapsto> DateObj (Date 3000), 3 \<mapsto> TaskObj 2 2 Returns (Some 5)],
            free = 4, refs = [(1, 1), (2, 3)]\<rparr>) = 6 \<and>
   array_of (snd (getTasks_store
          \<lparr>store = [0 \<mapsto> DateObj (Date 1000), 1 \<mapsto> TaskObj 1 0 Throws (Some 1),
               2 \<mapsto> DateObj (Date 3000), 3 \<mapsto> TaskObj 2 2 Returns (Some 5)],
            free = 4, refs = [(1, 1), (2, 3)]\<rparr>)) 6 = [4, 5] \<and>
   entries_of (snd (getTasks_store
          \<lparr>store = [0 \<mapsto> DateObj (Date 1000), 1 \<mapsto> TaskObj 1 0 Throws (Some 1),
               2 \<mapsto> DateObj (Date 3000), 3 \<mapsto> TaskObj 2 2 Returns (Some 5)],
            free = 4, refs = [(1, 1), (2, 3)]\<rparr>)) [4, 5] = [(1, Date 1000), (2, Date 3000)] \<and>
   tasks_of ((snd (getTasks_store
          \<lparr>store = [0 \<mapsto> DateObj (Date 1000), 1 \<mapsto> TaskObj 1 0 Throws (Some 1),
               2 \<mapsto> DateObj (Date 3000), 3 \<mapsto> TaskObj 2 2 Returns (Some 5)],
            free = 4, refs = [(1, 1), (2, 3)]\<rparr>))
        \<lparr>store := (store (snd (getTasks_store
          \<lparr>store = [0 \<mapsto> DateObj (Date 1000), 1 \<mapsto> TaskObj 1 0 Throws (Some 1),
               2 \<mapsto> DateObj (Date 3000), 3 \<mapsto> TaskObj 2 2 Returns (Some 5)],
            free = 4, refs = [(1, 1), (2, 3)]\<rparr>)))(4 := Some (EntryObj 9 2))\<rparr>) =
     [(1, \<lparr>id_task = 1, targetTime = Date 1000, callback = Throws, timeoutId = Some 1\<rparr>),
          (2, \<lparr>id_task = 2, targetTime = Date 3000, callback = Returns, timeoutId = Some 5\<rparr>)] \<and>
   map (date_of (snd (getTasks_store
          \<lparr>store = [0 \<mapsto> DateObj (Date 1000), 1 \<mapsto> TaskObj 1 0 Throws (Some 1),
               2 \<mapsto> DateObj (Date 3000), 3 \<mapsto> TaskObj 2 2 Returns (Some 5)],
            free = 4, refs = [(1, 1), (2, 3)]\<rparr>))) [4, 5] = [Some 0, Some 2] \<and>
   task_at ((snd (getTasks_store
          \<lparr>store = [0 \<mapsto> DateObj (Date 1000), 1 \<mapsto> TaskObj 1 0 Throws (Some 1),
               2 \<mapsto> DateObj (Date 3000), 3 \<mapsto> TaskObj 2 2 Returns (Some 5)],
            free = 4, refs = [(1, 1), (2, 3)]\<rparr>))
        \<lparr>store := (store (snd (getTasks_store
          \<lparr>store = [0 \<mapsto> DateObj (Date 1000), 1 \<mapsto> TaskObj 1 0 Throws (Some 1),
               2 \<mapsto> DateObj (Date 3000), 3 \<mapsto> TaskObj 2 2 Returns (Some 5)],
            free = 4, refs = [(1, 1), (2, 3)]\<rparr>)))(0 \<mapsto> DateObj (Date 5))\<rparr>) 1 =
     Some \<lparr>id_task = 1, targetTime = Date 5, callback = Throws, timeoutId = Some 1\<rparr>"
proof -
  let ?h = "\<lparr>store = [0 \<mapsto> DateObj (Date 1000), 1 \<mapsto> TaskObj 1 0 Throws (Some 1),
               2 \<mapsto> DateObj (Date 3000), 3 \<mapsto> TaskObj 2 2 Returns (Some 5)],
            free = 4, refs = [(1, 1), (2, 3)]\<rparr>"
  let ?st = "\<lparr>tasks =
         [(1, \<lparr>id_task = 1, targetTime = Date 1000, callback = Throws, timeoutId = Some 1\<rparr>),
          (2, \<lparr>id_task = 2, targetTime = Date 3000, callback = Returns, timeoutId = Some 5\<rparr>)],
       nextTaskId = 5, timers = [\<lparr>handle = 5, fires = 2, delay = Num 2995\<rparr>], nextTimer = 6,
       calls = [\<lparr>callee = 1, present = [1, 2, 4], returned = False\<rparr>,
                \<lparr>callee = 4, present = [1, 2, 4], returned = True\<rparr>]\<rparr>"
  let ?ops = "[Create 0 (Date 1000) Throws, Create 0 (Date 2000) Returns, Create 0 (Date 2500) Returns,
      Create 0 (Date 50) Returns, Reschedule 5 2 (Date 3000), Cancel 3, Timeout 1, Timeout 4,
      GetTasks]"
  let ?rs = "[Created 1, Created 2, Created 3, Created 4, Answered True, Answered True,
      Raised CallbackError, Done, Listed [(1, Date 1000), (2, Date 3000)]]"
  let ?first = "\<lparr>tasks =
         [(1, \<lparr>id_task = 1, targetTime = Date 1000, callback = Throws, timeoutId = Some 1\<rparr>),
          (2, \<lparr>id_task = 2, targetTime = Date 2000, callback = Returns, timeoutId = Some 2\<rparr>),
          (3, \<lparr>id_task = 3, targetTime = Date 2500, callback = Returns, timeoutId = Some 3\<rparr>)],
       nextTaskId = 4,
       timers = [\<lparr>handle = 1, fires = 1, delay = Num 1000\<rparr>,
                 \<lparr>handle = 2, fires = 2, delay = Num 2000\<rparr>,
                 \<lparr>handle = 3, fires = 3, delay = Num 2500\<rparr>],
       nextTimer = 4, calls = []\<rparr>"
  let ?mid = "\<lparr>tasks =
         [(1, \<lparr>id_task = 1, targetTime = Date 1000, callback = Throws, timeoutId = Some 1\<rparr>),
          (2, \<lparr>id_task = 2, targetTime = Date 3000, callback = Returns, timeoutId = Some 5\<rparr>),
          (3, \<lparr>id_task = 3, targetTime = Date 2500, callback = Returns, timeoutId = Some 3\<rparr>),
          (4, \<lparr>id_task = 4, targetTime = Date 50, callback = Returns, timeoutId = Some 4\<rparr>)],
       nextTaskId = 5,
       timers = [\<lparr>handle = 1, fires = 1, delay = Num 1000\<rparr>,
                 \<lparr>handle = 3, fires = 3, delay = Num 2500\<rparr>,
                 \<lparr>handle = 4, fires = 4, delay = Num 50\<rparr>,
                 \<lparr>handle = 5, fires = 2, delay = Num 2995\<rparr>],
       nextTimer = 6, calls = []\<rparr>"
  have r1: "run EsmBundle
      [Create 0 (Date 1000) Throws, Create 0 (Date 2000) Returns, Create 0 (Date 2500) Returns]
      constructor = ([Created 1, Created 2, Created 3], ?first)"
    by code_simp
  have r2: "run EsmBundle [Create 0 (Date 50) Returns, Reschedule 5 2 (Date 3000)] ?first =
     ([Created 4, Answered True], ?mid)"
    by code_simp
  have r3: "run EsmBundle [Cancel 3, Timeout 1, Timeout 4, GetTasks] ?mid =
     ([Answered True, Raised CallbackError, Done, Listed [(1, Date 1000), (2, Date 3000)]], ?st)"
    by code_simp
  have r12: "run EsmBundle
      [Create 0 (Date 1000) Throws, Create 0 (Date 2000) Returns, Create 0 (Date 2500) Returns,
       Create 0 (Date 50) Returns, Reschedule 5 2 (Date 3000)] constructor =
     ([Created 1, Created 2, Created 3, Created 4, Answered True], ?mid)"
    using run_append [of EsmBundle
        "[Create 0 (Date 1000) Throws, Create 0 (Date 2000) Returns,
          Create 0 (Date 2500) Returns]"
        "[Create 0 (Date 50) Returns, Reschedule 5 2 (Date 3000)]" constructor]
    unfolding r1 fst_conv snd_conv r2 append.simps .
  have r: "run EsmBundle ?ops constructor = (?rs, ?st)"
    using run_append [of EsmBundle
        "[Create 0 (Date 1000) Throws, Create 0 (Date 2000) Returns,
          Create 0 (Date 2500) Returns, Create 0 (Date 50) Returns, Reschedule 5 2 (Date 3000)]"
        "[Cancel 3, Timeout 1, Timeout 4, GetTasks]" constructor]
    unfolding r12 fst_conv snd_conv r3 append.simps .
  have comp: "completed ?st = [4]" and gone: "cancelled ?ops ?rs = [3]"
    by (simp_all add: completed_def)
  have ok: "heap_ok ?h"
    by (simp add: heap_ok_def task_ok_def)
  have t: "tasks_of ?h =
     [(1, \<lparr>id_task = 1, targetTime = Date 1000, callback = Throws, timeoutId = Some 1\<rparr>),
          (2, \<lparr>id_task = 2, targetTime = Date 3000, callback = Returns, timeoutId = Some 5\<rparr>)]"
    by (simp add: tasks_of_def task_at_def)
  then have t': "tasks_of ?h = tasks ?st"
    by simp
  have arr: "fst (getTasks_store ?h) = 6"
    by (simp add: getTasks_store_def alloc_def)
  have es: "array_of (snd (getTasks_store ?h)) 6 = [4, 5]"
    by (simp add: getTasks_store_def alloc_def array_of_def)
  have g: "getTasks ?st = [(1, Date 1000), (2, Date 3000)]"
    by (simp add: getTasks_def)
  have d: "date_of ?h 1 = Some 0" and a: "task_at ?h 1 = Some \<lparr>id_task = 1, targetTime = Date 1000, callback = Throws, timeoutId = Some 1\<rparr>"
    by (simp_all add: date_of_def task_at_def)
  note snapshot = getTasks_snapshot [of EsmBundle ?st ?ops ?h, unfolded r fst_conv snd_conv]
  from snapshot ok t'
  have e: "entries_of (snd (getTasks_store ?h)) [4, 5] = [(1, Date 1000), (2, Date 3000)]"
    and w: "tasks_of ((snd (getTasks_store ?h))
        \<lparr>store := (store (snd (getTasks_store ?h)))(4 := Some (EntryObj 9 2))\<rparr>) =
     [(1, \<lparr>id_task = 1, targetTime = Date 1000, callback = Throws, timeoutId = Some 1\<rparr>),
          (2, \<lparr>id_task = 2, targetTime = Date 3000, callback = Returns, timeoutId = Some 5\<rparr>)]"
    and s: "map (date_of (snd (getTasks_store ?h))) [4, 5] = [Some 0, Some 2]"
    and x: "task_at ((snd (getTasks_store ?h))
        \<lparr>store := (store (snd (getTasks_store ?h)))(0 \<mapsto> DateObj (Date 5))\<rparr>) 1 =
      Some \<lparr>id_task = 1, targetTime = Date 5, callback = Throws, timeoutId = Some 1\<rparr>"
    unfolding arr es g using d a by (simp_all add: date_of_def)
  show ?thesis
    by (intro conjI) (fact r comp gone ok t arr es e w s x)+
qed

theorem snapshot_shares_date_counterexample:
  "fst (run EsmBundle [Create 0 (Date 10) Throws, Timeout 1, GetTasks] constructor) =
     [Created 1, Raised CallbackError, Listed [(1, Date 10)]] \<and>
   tasks_of \<lparr>store = [0 \<mapsto> DateObj (Date 1000), 1 \<mapsto> TaskObj 1 0 Returns (Some 1)],
            free = 2, refs = [(1, 1)]\<rparr> =
     [(1, \<lparr>id_task = 1, targetTime = Date 1000, callback = Returns, timeoutId = Some 1\<rparr>)] \<and>
   array_of (snd (getTasks_store \<lparr>store = [0 \<mapsto> DateObj (Date 1000), 1 \<mapsto> TaskObj 1 0 Returns (Some 1)],
            free = 2, refs = [(1, 1)]\<rparr>))
     (fst (getTasks_store \<lparr>store = [0 \<mapsto> DateObj (Date 1000), 1 \<mapsto> TaskObj 1 0 Returns (Some 1)],
            free = 2, refs = [(1, 1)]\<rparr>)) = [2] \<and>
   date_of (snd (getTasks_store \<lparr>store = [0 \<mapsto> DateObj (Date 1000), 1 \<mapsto> TaskObj 1 0 Returns (Some 1)],
            free = 2, refs = [(1, 1)]\<rparr>)) 2 = Some 0 \<and>
   tasks_of ((snd (getTasks_store \<lparr>store = [0 \<mapsto> DateObj (Date 1000), 1 \<mapsto> TaskObj 1 0 Returns (Some 1)],
            free = 2, refs = [(1, 1)]\<rparr>))
        \<lparr>store := (store (snd (getTasks_store \<lparr>store = [0 \<mapsto> DateObj (Date 1000), 1 \<mapsto> TaskObj 1 0 Returns (Some 1)],
            free = 2, refs = [(1, 1)]\<rparr>)))(0 \<mapsto> DateObj (Date 5))\<rparr>) =
     [(1, \<lparr>id_task = 1, targetTime = Date 5, callback = Returns, timeoutId = Some 1\<rparr>)]"
proof -
  have "fst (run EsmBundle [Create 0 (Date 10) Throws, Timeout 1, GetTasks] constructor) =
     [Created 1, Raised CallbackError, Listed [(1, Date 10)]]"
    by code_simp
  then show ?thesis
    by (simp add: getTasks_store_def alloc_def array_of_def date_of_def tasks_of_def task_at_def)
qed

section \<open>Identifiers\<close>

text \<open>
  C4. In every sequence of operations on a new manager, in both builds, the ids that the
  create calls return are strictly increasing, hence unique and never reused, and lie
  between 1 and the number of create calls; the create call that follows \<open>ops\<close> returns
  the number of create calls made so far plus one (in \<^verbatim>\<open>src/task.js\<close>, unless it
  raises), so the first returns 1. The counter grows by one with each create call and is
  changed by nothing else: it is monotonic and never reset.
\<close>

theorem ids_strictly_increasing:
  "sorted_wrt (<) (created (fst (run b ops constructor))) \<and>
   distinct (created (fst (run b ops constructor))) \<and>
   (\<forall>i \<in> set (created (fst (run b ops constructor))). 1 \<le> i \<and> i \<le> creates ops) \<and>
   created (fst (run EsmBundle ops constructor)) = [1 ..< Suc (creates ops)] \<and>
   (fst (step b (Create now t cb) (snd (run b ops constructor))) = Created (Suc (creates ops)) \<or>
    (\<exists>e. b = TaskJs \<and>
       fst (step b (Create now t cb) (snd (run b ops constructor))) = Raised e)) \<and>
   nextTaskId (snd (run b ops st)) = nextTaskId st + creates ops \<and>
   nextTaskId st \<le> nextTaskId (snd (run b ops st))"
proof -
  have one: "nextTaskId constructor = 1"
    by (simp add: constructor_def)
  have bounds: "sorted_wrt (<) (created (fst (run b ops constructor))) \<and>
    (\<forall>i \<in> set (created (fst (run b ops constructor))). 1 \<le> i \<and> i < 1 + creates ops)"
    using run_created_bounds [of b ops constructor] by (simp add: one)
  then have dist: "distinct (created (fst (run b ops constructor)))"
    by (simp add: strict_sorted_iff)
  have esm: "created (fst (run EsmBundle ops constructor)) = [1 ..< Suc (creates ops)]"
    using run_created_esm [of ops constructor] by (simp add: one)
  have nxt: "nextTaskId (snd (run b ops constructor)) = Suc (creates ops)"
    by (simp add: run_nextTaskId one)
  have nth: "fst (step b (Create now t cb) (snd (run b ops constructor))) = Created (Suc (creates ops)) \<or>
    (\<exists>e. b = TaskJs \<and>
       fst (step b (Create now t cb) (snd (run b ops constructor))) = Raised e)"
  proof (cases b)
    case EsmBundle
    then show ?thesis by (simp add: createTask_esm_eq run_nextTaskId one)
  next
    case TaskJs
    show ?thesis
      using fst_createTask [of b now t cb "snd (run b ops constructor)"]
      unfolding nxt by (auto simp: TaskJs split_beta split: result.splits)
  qed
  have srt: "sorted_wrt (<) (created (fst (run b ops constructor)))"
    using bounds by simp
  have range: "\<forall>i \<in> set (created (fst (run b ops constructor))). 1 \<le> i \<and> i \<le> creates ops"
    using bounds by auto
  have cnt: "nextTaskId (snd (run b ops st)) = nextTaskId st + creates ops"
    by (rule run_nextTaskId)
  have mono: "nextTaskId st \<le> nextTaskId (snd (run b ops st))"
    by (simp add: run_nextTaskId)
  show ?thesis
    using srt dist range esm nth cnt mono by blast
qed

theorem ids_strictly_increasing_witness:
  "created (fst (run TaskJs
     [Create 0 (Date 10) Returns, Cancel 1, Create 20 (Date 5) Throws, Timeout 1,
      Create 20 (Date 30) Returns] constructor)) = [1, 3] \<and>
   creates [Create 0 (Date 10) Returns, Cancel 1, Create 20 (Date 5) Throws, Timeout 1,
      Create 20 (Date 30) Returns] = 3 \<and>
   sorted_wrt (<) (created (fst (run TaskJs
     [Create 0 (Date 10) Returns, Cancel 1, Create 20 (Date 5) Throws, Timeout 1,
      Create 20 (Date 30) Returns] constructor))) \<and>
   fst (step TaskJs (Create 40 (Date 50) Returns) (snd (run TaskJs
     [Create 0 (Date 10) Returns, Cancel 1, Create 20 (Date 5) Throws, Timeout 1,
      Create 20 (Date 30) Returns] constructor))) = Created 4"
proof -
  have a: "created (fst (run TaskJs
     [Create 0 (Date 10) Returns, Cancel 1, Create 20 (Date 5) Throws, Timeout 1,
      Create 20 (Date 30) Returns] constructor)) = [1, 3]"
    by code_simp
  have b: "creates [Create 0 (Date 10) Returns, Cancel 1, Create 20 (Date 5) Throws,
      Timeout 1, Create 20 (Date 30) Returns] = 3"
    by simp
  have c: "fst (step TaskJs (Create 40 (Date 50) Returns) (snd (run TaskJs
     [Create 0 (Date 10) Returns, Cancel 1, Create 20 (Date 5) Throws, Timeout 1,
      Create 20 (Date 30) Returns] constructor))) = Created 4"
    by code_simp
  show ?thesis
    using c ids_strictly_increasing [of TaskJs
      "[Create 0 (Date 10) Returns, Cancel 1, Create 20 (Date 5) Throws, Timeout 1,
        Create 20 (Date 30) Returns]" 40 "Date 50" Returns constructor]
    unfolding a b c by simp
qed

section \<open>Cancelling\<close>

text \<open>
  C5. \<^verbatim>\<open>cancelTask\<close> on an id that is not in the map answers false and leaves the whole
  state as it was. On an id that is in the map it disarms the timer whose handle the task
  holds, removes the task, answers true and changes nothing else. It is a total function
  into a boolean and a state: it raises in neither case. When, after any operations on a
  new manager, a cancel of \<open>k\<close> answers true, then whatever operations follow (expiries
  of live and of superseded timers among them), the callback of \<open>k\<close> is not invoked
  again, \<open>k\<close> is not in the map, and cancel and reschedule of \<open>k\<close> answer false.
\<close>

theorem cancel_removes_for_good:
  "(map_of (tasks st) k = None \<longrightarrow> cancelTask k st = (False, st)) \<and>
   (map_of (tasks st) k = Some task \<longrightarrow>
      cancelTask k st =
        (True, st\<lparr>timers := filter (\<lambda>x. Some (handle x) \<noteq> timeoutId task) (timers st),
                 tasks := AList.delete k (tasks st)\<rparr>)) \<and>
   (fst (cancelTask k (snd (run b ops1 constructor))) \<longrightarrow>
      count_list (map callee (calls (snd (run b (ops1 @ Cancel k # ops2) constructor)))) k =
        count_list (map callee (calls (snd (run b ops1 constructor)))) k \<and>
      map_of (tasks (snd (run b (ops1 @ Cancel k # ops2) constructor))) k = None \<and>
      fst (cancelTask k (snd (run b (ops1 @ Cancel k # ops2) constructor))) = False \<and>
      fst (rescheduleTask b now k t (snd (run b (ops1 @ Cancel k # ops2) constructor))) =
        Return False)"
proof -
  let ?st1 = "snd (run b ops1 constructor)"
  let ?st2 = "snd (cancelTask k ?st1)"
  let ?st3 = "snd (run b (ops1 @ Cancel k # ops2) constructor)"
  have st3: "?st3 = snd (run b ops2 ?st2)"
    by (simp only: snd_run_append snd_run_Cons snd_step op.case)
  have later: "count_list (map callee (calls ?st3)) k = count_list (map callee (calls ?st1)) k \<and>
      map_of (tasks ?st3) k = None \<and> fst (cancelTask k ?st3) = False \<and>
      fst (rescheduleTask b now k t ?st3) = Return False"
    if yes: "fst (cancelTask k ?st1)"
  proof -
    have ok: "ids_ok ?st1"
      by (rule run_ids_ok [OF ids_ok_constructor])
    obtain task where task: "map_of (tasks ?st1) k = Some task"
      using yes by (cases "map_of (tasks ?st1) k") (simp_all add: cancelTask_eq)
    then have below: "k < nextTaskId ?st1"
      using ok by (simp add: ids_ok_def)
    have gone: "map_of (tasks ?st2) k = None"
      and same: "calls ?st2 = calls ?st1"
      and below2: "k < nextTaskId ?st2"
      using task below by (simp_all add: cancelTask_eq AList.delete_conv')
    have "map_of (tasks ?st3) k = None \<and>
      count_list (map callee (calls ?st3)) k = count_list (map callee (calls ?st2)) k"
      unfolding st3 by (rule run_gone [OF gone below2])
    then have absent: "map_of (tasks ?st3) k = None"
      and count: "count_list (map callee (calls ?st3)) k = count_list (map callee (calls ?st1)) k"
      by (simp_all only: same)
    have "cancelTask k ?st3 = (False, ?st3)"
      using absent by (simp only: cancelTask_eq option.case)
    moreover have "rescheduleTask b now k t ?st3 = (Return False, ?st3)"
      using absent by (rule rescheduleTask_absent)
    ultimately show ?thesis
      using absent count by (simp only: fst_conv)
  qed
  show ?thesis
    using later by (simp add: cancelTask_eq)
qed

theorem cancel_removes_for_good_witness:
  "map_of (tasks constructor) 1 = None \<and>
   cancelTask 1 constructor = (False, constructor) \<and>
   map_of (tasks (snd (run EsmBundle [Create 0 (Date 10) Returns] constructor))) 1 =
     Some \<lparr>id_task = 1, targetTime = Date 10, callback = Returns, timeoutId = Some 1\<rparr> \<and>
   cancelTask 1 (snd (run EsmBundle [Create 0 (Date 10) Returns] constructor)) =
     (True, \<lparr>tasks = [], nextTaskId = 2, timers = [], nextTimer = 2, calls = []\<rparr>) \<and>
   calls (snd (run EsmBundle
     ([Create 0 (Date 10) Returns] @ Cancel 1 # [Timeout 1, Stale 1, Reschedule 20 1 (Date 30)])
     constructor)) = [] \<and>
   fst (cancelTask 1 (snd (run EsmBundle
     ([Create 0 (Date 10) Returns] @ Cancel 1 # [Timeout 1, Stale 1, Reschedule 20 1 (Date 30)])
     constructor))) = False"
proof -
  have a: "snd (run EsmBundle [Create 0 (Date 10) Returns] constructor) =
      \<lparr>tasks = [(1, \<lparr>id_task = 1, targetTime = Date 10, callback = Returns,
         timeoutId = Some 1\<rparr>)], nextTaskId = 2,
       timers = [\<lparr>handle = 1, fires = 1, delay = Num 10\<rparr>], nextTimer = 2, calls = []\<rparr>"
    by code_simp
  have b: "map_of (tasks constructor) 1 = None"
    by (simp add: constructor_def)
  have c: "fst (cancelTask 1 (snd (run EsmBundle [Create 0 (Date 10) Returns] constructor)))"
    by code_simp
  have d: "snd (run EsmBundle
     ([Create 0 (Date 10) Returns] @ Cancel 1 # [Timeout 1, Stale 1, Reschedule 20 1 (Date 30)])
     constructor) =
      \<lparr>tasks = [], nextTaskId = 2, timers = [], nextTimer = 2, calls = []\<rparr>"
    by code_simp
  show ?thesis
    using b c
      cancel_removes_for_good [of constructor 1
        "\<lparr>id_task = 1, targetTime = Date 10, callback = Returns, timeoutId = Some 1\<rparr>" EsmBundle
        "[Create 0 (Date 10) Returns]" "[Timeout 1, Stale 1, Reschedule 20 1 (Date 30)]" 20 "Date 30"]
      cancel_removes_for_good [of "snd (run EsmBundle [Create 0 (Date 10) Returns] constructor)" 1
        "\<lparr>id_task = 1, targetTime = Date 10, callback = Returns, timeoutId = Some 1\<rparr>" EsmBundle
        "[Create 0 (Date 10) Returns]" "[Timeout 1, Stale 1, Reschedule 20 1 (Date 30)]" 20 "Date 30"]
    by (simp only: a d) simp
qed

section \<open>Rescheduling\<close>

text \<open>
  C6, amended. \<^verbatim>\<open>rescheduleTask\<close> on an id that is not in the map answers false, in both
  builds. On a task in the map (stored under its id), \<^verbatim>\<open>index.esm.mjs\<close> answers true: the
  timer with the task's old handle leaves the pending set, a new timer for the same id
  is armed with the delay create would use, and the map holds the task under the same
  key with the same id and callback, the new target time and the new handle.
  \<^verbatim>\<open>src/task.js\<close> does the same when the new delay is positive. When it is not, it disarms
  the old timer, stores the new target time and executes the task inline: if the callback
  returns, reschedule answers true and the task is no longer in the map; if it raises,
  reschedule raises and the task stays, with no timer.
\<close>

theorem reschedule_rearms:
  "(map_of (tasks st) k = None \<longrightarrow> rescheduleTask b now k t st = (Return False, st)) \<and>
   timers (snd (createTask EsmBundle now t cb st)) =
     timers st @
       [\<lparr>handle = nextTimer st, fires = nextTaskId st,
         delay = (if gt0 (sub (getTime t) (Num now)) then sub (getTime t) (Num now)
                  else Num 0)\<rparr>] \<and>
   (map_of (tasks st) k = Some task \<and> id_task task = k \<longrightarrow>
      fst (rescheduleTask EsmBundle now k t st) = Return True \<and>
      map_of (tasks (snd (rescheduleTask EsmBundle now k t st))) k =
        Some (task\<lparr>targetTime := t, timeoutId := Some (nextTimer st)\<rparr>) \<and>
      timers (snd (rescheduleTask EsmBundle now k t st)) =
        filter (\<lambda>x. Some (handle x) \<noteq> timeoutId task) (timers st) @
          [\<lparr>handle = nextTimer st, fires = k,
            delay = (if gt0 (sub (getTime t) (Num now)) then sub (getTime t) (Num now)
                     else Num 0)\<rparr>] \<and>
      (gt0 (sub (getTime t) (Num now)) \<longrightarrow>
         rescheduleTask TaskJs now k t st = rescheduleTask EsmBundle now k t st) \<and>
      (\<not> gt0 (sub (getTime t) (Num now)) \<and> callback task = Returns \<longrightarrow>
         fst (rescheduleTask TaskJs now k t st) = Return True \<and>
         map_of (tasks (snd (rescheduleTask TaskJs now k t st))) k = None \<and>
         timers (snd (rescheduleTask TaskJs now k t st)) =
           filter (\<lambda>x. Some (handle x) \<noteq> timeoutId task) (timers st)) \<and>
      (\<not> gt0 (sub (getTime t) (Num now)) \<and> callback task \<noteq> Returns \<longrightarrow>
         (\<exists>e. fst (rescheduleTask TaskJs now k t st) = Throw e) \<and>
         map_of (tasks (snd (rescheduleTask TaskJs now k t st))) k =
           Some (task\<lparr>targetTime := t\<rparr>) \<and>
         timers (snd (rescheduleTask TaskJs now k t st)) =
           filter (\<lambda>x. Some (handle x) \<noteq> timeoutId task) (timers st)))"
proof -
  have esm: "fst (rescheduleTask EsmBundle now k t st) = Return True \<and>
      map_of (tasks (snd (rescheduleTask EsmBundle now k t st))) k =
        Some (task\<lparr>targetTime := t, timeoutId := Some (nextTimer st)\<rparr>) \<and>
      timers (snd (rescheduleTask EsmBundle now k t st)) =
        filter (\<lambda>x. Some (handle x) \<noteq> timeoutId task) (timers st) @
          [\<lparr>handle = nextTimer st, fires = k,
            delay = (if gt0 (sub (getTime t) (Num now)) then sub (getTime t) (Num now)
                     else Num 0)\<rparr>]"
    if "map_of (tasks st) k = Some task" and "id_task task = k"
    using that by (simp add: rescheduleTask_esm_tasks) (simp add: rescheduleTask_esm_eq)
  have returns: "fst (rescheduleTask TaskJs now k t st) = Return True \<and>
         map_of (tasks (snd (rescheduleTask TaskJs now k t st))) k = None \<and>
         timers (snd (rescheduleTask TaskJs now k t st)) =
           filter (\<lambda>x. Some (handle x) \<noteq> timeoutId task) (timers st)"
    if "map_of (tasks st) k = Some task" and "id_task task = k"
      and "\<not> gt0 (sub (getTime t) (Num now))" and "callback task = Returns"
    using that by (simp add: rescheduleTask_src_due AList.delete_conv')
  have raises: "(\<exists>e. fst (rescheduleTask TaskJs now k t st) = Throw e) \<and>
         map_of (tasks (snd (rescheduleTask TaskJs now k t st))) k =
           Some (task\<lparr>targetTime := t\<rparr>) \<and>
         timers (snd (rescheduleTask TaskJs now k t st)) =
           filter (\<lambda>x. Some (handle x) \<noteq> timeoutId task) (timers st)"
    if "map_of (tasks st) k = Some task" and "id_task task = k"
      and "\<not> gt0 (sub (getTime t) (Num now))" and "callback task \<noteq> Returns"
    using that
    by (cases "callback task") (simp_all add: rescheduleTask_src_due AList.map_of_map_entry)
  show ?thesis
    using esm returns raises
    by (simp add: rescheduleTask_absent createTask_esm_eq rescheduleTask_src_armed)
qed

theorem reschedule_rearms_witness:
  "map_of (tasks constructor) 999 = None \<and>
   rescheduleTask EsmBundle 0 999 (Date 7) constructor = (Return False, constructor) \<and>
   map_of (tasks \<lparr>tasks = [(1, \<lparr>id_task = 1, targetTime = Date 1000, callback = Returns,
       timeoutId = Some 1\<rparr>)], nextTaskId = 2,
       timers = [\<lparr>handle = 1, fires = 1, delay = Num 1000\<rparr>], nextTimer = 2, calls = []\<rparr>) 1 =
     Some \<lparr>id_task = 1, targetTime = Date 1000, callback = Returns, timeoutId = Some 1\<rparr> \<and>
   gt0 (sub (getTime (Date 2000)) (Num 0)) \<and>
   rescheduleTask TaskJs 0 1 (Date 2000)
     \<lparr>tasks = [(1, \<lparr>id_task = 1, targetTime = Date 1000, callback = Returns,
       timeoutId = Some 1\<rparr>)], nextTaskId = 2,
       timers = [\<lparr>handle = 1, fires = 1, delay = Num 1000\<rparr>], nextTimer = 2, calls = []\<rparr> =
     (Return True,
      \<lparr>tasks = [(1, \<lparr>id_task = 1, targetTime = Date 2000, callback = Returns,
         timeoutId = Some 2\<rparr>)], nextTaskId = 2,
       timers = [\<lparr>handle = 2, fires = 1, delay = Num 2000\<rparr>], nextTimer = 3, calls = []\<rparr>) \<and>
   \<not> gt0 (sub (getTime (Date 2000)) (Num 5000)) \<and>
   timers (snd (rescheduleTask EsmBundle 5000 1 (Date 2000)
     \<lparr>tasks = [(1, \<lparr>id_task = 1, targetTime = Date 1000, callback = Returns,
       timeoutId = Some 1\<rparr>)], nextTaskId = 2,
       timers = [\<lparr>handle = 1, fires = 1, delay = Num 1000\<rparr>], nextTimer = 2, calls = []\<rparr>)) =
     [\<lparr>handle = 2, fires = 1, delay = Num 0\<rparr>] \<and>
   map_of (tasks (snd (rescheduleTask TaskJs 5000 1 (Date 2000)
     \<lparr>tasks = [(1, \<lparr>id_task = 1, targetTime = Date 1000, callback = Returns,
       timeoutId = Some 1\<rparr>)], nextTaskId = 2,
       timers = [\<lparr>handle = 1, fires = 1, delay = Num 1000\<rparr>], nextTimer = 2, calls = []\<rparr>))) 1 =
     None \<and>
   (\<exists>e. fst (rescheduleTask TaskJs 5000 1 (Date 2000)
     \<lparr>tasks = [(1, \<lparr>id_task = 1, targetTime = Date 1000, callback = Throws,
       timeoutId = Some 1\<rparr>)], nextTaskId = 2,
       timers = [\<lparr>handle = 1, fires = 1, delay = Num 1000\<rparr>], nextTimer = 2, calls = []\<rparr>) =
     Throw e)"
proof -
  have a: "map_of (tasks constructor) 999 = None"
    by (simp add: constructor_def)
  have b: "rescheduleTask EsmBundle 0 1 (Date 2000)
     \<lparr>tasks = [(1, \<lparr>id_task = 1, targetTime = Date 1000, callback = Returns,
       timeoutId = Some 1\<rparr>)], nextTaskId = 2,
       timers = [\<lparr>handle = 1, fires = 1, delay = Num 1000\<rparr>], nextTimer = 2, calls = []\<rparr> =
     (Return True,
      \<lparr>tasks = [(1, \<lparr>id_task = 1, targetTime = Date 2000, callback = Returns,
         timeoutId = Some 2\<rparr>)], nextTaskId = 2,
       timers = [\<lparr>handle = 2, fires = 1, delay = Num 2000\<rparr>], nextTimer = 3, calls = []\<rparr>)"
    by code_simp
  show ?thesis
    using a b
      reschedule_rearms [of constructor 999 EsmBundle 0 "Date 7"]
      reschedule_rearms [of
        "\<lparr>tasks = [(1, \<lparr>id_task = 1, targetTime = Date 1000, callback = Returns,
           timeoutId = Some 1\<rparr>)], nextTaskId = 2,
           timers = [\<lparr>handle = 1, fires = 1, delay = Num 1000\<rparr>], nextTimer = 2, calls = []\<rparr>"
        1 EsmBundle 0 "Date 2000" Returns
        "\<lparr>id_task = 1, targetTime = Date 1000, callback = Returns, timeoutId = Some 1\<rparr>"]
      reschedule_rearms [of
        "\<lparr>tasks = [(1, \<lparr>id_task = 1, targetTime = Date 1000, callback = Returns,
           timeoutId = Some 1\<rparr>)], nextTaskId = 2,
           timers = [\<lparr>handle = 1, fires = 1, delay = Num 1000\<rparr>], nextTimer = 2, calls = []\<rparr>"
        1 EsmBundle 5000 "Date 2000" Returns
        "\<lparr>id_task = 1, targetTime = Date 1000, callback = Returns, timeoutId = Some 1\<rparr>"]
      reschedule_rearms [of
        "\<lparr>tasks = [(1, \<lparr>id_task = 1, targetTime = Date 1000, callback = Throws,
           timeoutId = Some 1\<rparr>)], nextTaskId = 2,
           timers = [\<lparr>handle = 1, fires = 1, delay = Num 1000\<rparr>], nextTimer = 2, calls = []\<rparr>"
        1 EsmBundle 5000 "Date 2000" Returns
        "\<lparr>id_task = 1, targetTime = Date 1000, callback = Throws, timeoutId = Some 1\<rparr>"]
    by simp
qed

text \<open>
  C6 as stated fails on \<^verbatim>\<open>src/task.js\<close>: rescheduled at time 5000 to the past time 2000,
  the task is executed inline; reschedule answers true and the task is not in the map.
\<close>

theorem reschedule_removes_task_counterexample:
  "run TaskJs [Create 0 (Date 1000) Returns, Reschedule 5000 1 (Date 2000), GetTasks]
     constructor =
     ([Created 1, Answered True, Listed []],
      \<lparr>tasks = [], nextTaskId = 2, timers = [], nextTimer = 2,
         calls = [\<lparr>callee = 1, present = [1], returned = True\<rparr>]\<rparr>)"
  by code_simp

section \<open>Which calls can raise\<close>

text \<open>
  C7, amended. The target time is a \<^verbatim>\<open>Date\<close> object, which may lie in the past or be the
  invalid date; the callback is any value, one that is no function included. In
  \<^verbatim>\<open>index.esm.mjs\<close> create has no error condition: it returns the next id; reschedule
  never raises and answers whether the id was known; cancel answers a boolean in both
  builds. In \<^verbatim>\<open>src/task.js\<close> create (and reschedule of a task stored under its id)
  returns unless the delay, the target time minus the current time, is not positive
  (zero, negative, or NaN for the invalid date) and the callback raises or is no
  function: then the callback's error, or a TypeError, leaves create (or reschedule).
\<close>

theorem create_raises_only_inline:
  "fst (createTask EsmBundle now t cb st) = Return (nextTaskId st) \<and>
   fst (rescheduleTask EsmBundle now k t st) = Return (map_of (tasks st) k \<noteq> None) \<and>
   fst (cancelTask k st) = (map_of (tasks st) k \<noteq> None) \<and>
   fst (createTask TaskJs now t cb st) =
     (if gt0 (sub (getTime t) (Num now)) \<or> cb = Returns then Return (nextTaskId st)
      else if cb = Throws then Throw CallbackError else Throw TypeError) \<and>
   (map_of (tasks st) k = Some task \<and> id_task task = k \<longrightarrow>
      fst (rescheduleTask TaskJs now k t st) =
        (if gt0 (sub (getTime t) (Num now)) \<or> callback task = Returns then Return True
         else if callback task = Throws then Throw CallbackError else Throw TypeError))"
proof -
  have esm_reschedule:
    "fst (rescheduleTask EsmBundle now k t st) = Return (map_of (tasks st) k \<noteq> None)"
    by (cases "map_of (tasks st) k") (simp_all add: rescheduleTask_absent rescheduleTask_esm_eq)
  have cancel: "fst (cancelTask k st) = (map_of (tasks st) k \<noteq> None)"
    by (cases "map_of (tasks st) k") (simp_all add: cancelTask_def Let_def)
  have src_create:
    "fst (createTask TaskJs now t cb st) =
     (if gt0 (sub (getTime t) (Num now)) \<or> cb = Returns then Return (nextTaskId st)
      else if cb = Throws then Throw CallbackError else Throw TypeError)"
    by (cases cb; cases "gt0 (sub (getTime t) (Num now))")
       (simp_all add: createTask_src_armed createTask_src_due createTask_esm_eq)
  have src_reschedule:
    "map_of (tasks st) k = Some task \<and> id_task task = k \<longrightarrow>
      fst (rescheduleTask TaskJs now k t st) =
        (if gt0 (sub (getTime t) (Num now)) \<or> callback task = Returns then Return True
         else if callback task = Throws then Throw CallbackError else Throw TypeError)"
    by (cases "callback task"; cases "gt0 (sub (getTime t) (Num now))")
       (auto simp: rescheduleTask_src_armed rescheduleTask_src_due rescheduleTask_esm_eq)
  show ?thesis
    using esm_reschedule cancel src_create src_reschedule
    by (simp add: createTask_esm_eq)
qed

theorem create_raises_only_inline_witness:
  "map_of (tasks \<lparr>tasks = [(1, \<lparr>id_task = 1, targetTime = Date 10, callback = Throws,
       timeoutId = Some 1\<rparr>)], nextTaskId = 2,
       timers = [\<lparr>handle = 1, fires = 1, delay = Num 10\<rparr>], nextTimer = 2, calls = []\<rparr>) 1 =
     Some \<lparr>id_task = 1, targetTime = Date 10, callback = Throws, timeoutId = Some 1\<rparr> \<and>
   fst (rescheduleTask EsmBundle 20 1 (Date 5)
     \<lparr>tasks = [(1, \<lparr>id_task = 1, targetTime = Date 10, callback = Throws,
       timeoutId = Some 1\<rparr>)], nextTaskId = 2,
       timers = [\<lparr>handle = 1, fires = 1, delay = Num 10\<rparr>], nextTimer = 2, calls = []\<rparr>) =
     Return True \<and>
   fst (rescheduleTask TaskJs 20 1 (Date 5)
     \<lparr>tasks = [(1, \<lparr>id_task = 1, targetTime = Date 10, callback = Throws,
       timeoutId = Some 1\<rparr>)], nextTaskId = 2,
       timers = [\<lparr>handle = 1, fires = 1, delay = Num 10\<rparr>], nextTimer = 2, calls = []\<rparr>) =
     Throw CallbackError \<and>
   fst (rescheduleTask TaskJs 5 1 (Date 20)
     \<lparr>tasks = [(1, \<lparr>id_task = 1, targetTime = Date 10, callback = Throws,
       timeoutId = Some 1\<rparr>)], nextTaskId = 2,
       timers = [\<lparr>handle = 1, fires = 1, delay = Num 10\<rparr>], nextTimer = 2, calls = []\<rparr>) =
     Return True"
  using create_raises_only_inline [of 20 "Date 5" Throws
      "\<lparr>tasks = [(1, \<lparr>id_task = 1, targetTime = Date 10, callback = Throws,
         timeoutId = Some 1\<rparr>)], nextTaskId = 2,
         timers = [\<lparr>handle = 1, fires = 1, delay = Num 10\<rparr>], nextTimer = 2, calls = []\<rparr>"
      1 "\<lparr>id_task = 1, targetTime = Date 10, callback = Throws, timeoutId = Some 1\<rparr>"]
    create_raises_only_inline [of 5 "Date 20" Throws
      "\<lparr>tasks = [(1, \<lparr>id_task = 1, targetTime = Date 10, callback = Throws,
         timeoutId = Some 1\<rparr>)], nextTaskId = 2,
         timers = [\<lparr>handle = 1, fires = 1, delay = Num 10\<rparr>], nextTimer = 2, calls = []\<rparr>"
      1 "\<lparr>id_task = 1, targetTime = Date 10, callback = Throws, timeoutId = Some 1\<rparr>"]
  by simp

text \<open>
  C7 as stated fails on \<^verbatim>\<open>src/task.js\<close>: create for a time in the past, or for the invalid
  date, with a callback that raises does not return an id; the callback's error leaves
  create.
\<close>

theorem create_raises_counterexample:
  "fst (createTask TaskJs 1000 (Date 0) Throws constructor) = Throw CallbackError \<and>
   fst (createTask TaskJs 1000 InvalidDate Throws constructor) = Throw CallbackError"
  by code_simp

section \<open>Membership in the registry\<close>

text \<open>
  C9, amended. In both builds, in every state that a new manager reaches by operations of
  which none raised, with the host firing only timers that are pending: a task is in the
  map if and only if a pending timer fires its id; the task holds that timer's handle,
  and no pending timer is without its task. Whatever the operations were, every
  invocation of a callback found its own task in the map while it ran, a task whose
  callback returned is not in the map, and a cancelled id is not in the map: nothing of
  an executed or cancelled task is kept. (A callback that raises leaves its task in the
  map without a timer.)
\<close>

theorem tasks_match_timers:
  "(\<forall>c \<in> set (calls (snd (run b ops constructor))).
      callee c \<in> set (present c) \<and>
      (returned c \<longrightarrow> map_of (tasks (snd (run b ops constructor))) (callee c) = None)) \<and>
   map_of (tasks (snd (cancelTask k st))) k = None \<and>
   ((\<forall>r \<in> set (fst (run b ops constructor)). \<not> raised r) \<and> (\<forall>x \<in> set ops. \<not> stale x) \<longrightarrow>
      live (snd (run b ops constructor)) \<and>
      (\<forall>j. map_of (tasks (snd (run b ops constructor))) j \<noteq> None \<longleftrightarrow>
           j \<in> fires ` set (timers (snd (run b ops constructor)))))"
proof -
  let ?st = "snd (run b ops constructor)"
  have "log_ok ?st"
    by (rule run_log_ok [OF ids_ok_constructor log_ok_constructor])
  then have log: "\<forall>c \<in> set (calls ?st).
      callee c \<in> set (present c) \<and> (returned c \<longrightarrow> map_of (tasks ?st) (callee c) = None)"
    by (simp add: log_ok_def)
  have cancel: "map_of (tasks (snd (cancelTask k st))) k = None"
    by (cases "map_of (tasks st) k") (simp_all add: cancelTask_eq AList.delete_conv')
  have match: "live ?st \<and> (\<forall>j. map_of (tasks ?st) j \<noteq> None \<longleftrightarrow> j \<in> fires ` set (timers ?st))"
    if "\<forall>r \<in> set (fst (run b ops constructor)). \<not> raised r" and "\<forall>x \<in> set ops. \<not> stale x"
  proof -
    have l: "live ?st"
      by (rule run_live [OF live_constructor ids_ok_constructor that])
    then have "\<forall>j. map_of (tasks ?st) j \<noteq> None \<longleftrightarrow> j \<in> fires ` set (timers ?st)"
      unfolding live_def by (auto simp: image_iff) (metis option.distinct(1))
    with l show ?thesis by simp
  qed
  show ?thesis
    using log cancel match by blast
qed

theorem tasks_match_timers_witness:
  "run EsmBundle
     [Create 0 (Date 10) Returns, Create 0 (Date 20) Returns, Reschedule 5 1 (Date 30),
      Timeout 2, GetTasks] constructor =
     ([Created 1, Created 2, Answered True, Done, Listed [(1, Date 30)]],
      \<lparr>tasks = [(1, \<lparr>id_task = 1, targetTime = Date 30, callback = Returns,
          timeoutId = Some 3\<rparr>)],
       nextTaskId = 3, timers = [\<lparr>handle = 3, fires = 1, delay = Num 25\<rparr>], nextTimer = 4,
       calls = [\<lparr>callee = 2, present = [1, 2], returned = True\<rparr>]\<rparr>) \<and>
   live (snd (run EsmBundle
     [Create 0 (Date 10) Returns, Create 0 (Date 20) Returns, Reschedule 5 1 (Date 30),
      Timeout 2, GetTasks] constructor)) \<and>
   map_of (tasks (snd (run EsmBundle
     [Create 0 (Date 10) Returns, Create 0 (Date 20) Returns, Reschedule 5 1 (Date 30),
      Timeout 2, GetTasks] constructor))) 2 = None"
proof -
  have a: "run EsmBundle
     [Create 0 (Date 10) Returns, Create 0 (Date 20) Returns, Reschedule 5 1 (Date 30),
      Timeout 2, GetTasks] constructor =
     ([Created 1, Created 2, Answered True, Done, Listed [(1, Date 30)]],
      \<lparr>tasks = [(1, \<lparr>id_task = 1, targetTime = Date 30, callback = Returns,
          timeoutId = Some 3\<rparr>)],
       nextTaskId = 3, timers = [\<lparr>handle = 3, fires = 1, delay = Num 25\<rparr>], nextTimer = 4,
       calls = [\<lparr>callee = 2, present = [1, 2], returned = True\<rparr>]\<rparr>)"
    by code_simp
  have q: "\<forall>r \<in> set (fst (run EsmBundle
     [Create 0 (Date 10) Returns, Create 0 (Date 20) Returns, Reschedule 5 1 (Date 30),
      Timeout 2, GetTasks] constructor)). \<not> raised r"
    by (simp only: a) simp
  have s: "\<forall>x \<in> set [Create 0 (Date 10) Returns, Create 0 (Date 20) Returns,
      Reschedule 5 1 (Date 30), Timeout 2, GetTasks]. \<not> stale x"
    by simp
  show ?thesis
    using q s tasks_match_timers [of EsmBundle
      "[Create 0 (Date 10) Returns, Create 0 (Date 20) Returns, Reschedule 5 1 (Date 30),
        Timeout 2, GetTasks]" 1 constructor]
    by (simp only: a) simp
qed

text \<open>
  C9 as stated fails: in \<^verbatim>\<open>src/task.js\<close> a task created for a past time with a callback
  that raises is in the map after create, with no timer handle and no pending timer, and
  its callback is not running.
\<close>

theorem task_without_timer_counterexample:
  "snd (run TaskJs [Create 1000 (Date 0) Throws] constructor) =
     \<lparr>tasks = [(1, \<lparr>id_task = 1, targetTime = Date 0, callback = Throws, timeoutId = None\<rparr>)],
      nextTaskId = 2, timers = [], nextTimer = 1,
      calls = [\<lparr>callee = 1, present = [1], returned = False\<rparr>]\<rparr>"
  by code_simp

section \<open>What rescheduling leaves alone\<close>

text \<open>
  C10, amended. A reschedule that answers false leaves the whole state as it was, in both
  builds. In \<^verbatim>\<open>index.esm.mjs\<close>, and in \<^verbatim>\<open>src/task.js\<close> when the new delay is positive, a
  reschedule of a task in the map (stored under its id) answers true and changes only
  that task's target time and timer handle: the task keeps its id and callback, every
  other task's record, the keys of the map and their order, the counter and the log of
  invocations are unchanged, and every pending timer other than the task's old one is
  still pending. (In \<^verbatim>\<open>src/task.js\<close> with a delay that is not positive the task is
  executed inline instead.)
\<close>

theorem reschedule_frame:
  "(fst (rescheduleTask b now k t st) = Return False \<longrightarrow>
      snd (rescheduleTask b now k t st) = st) \<and>
   (map_of (tasks st) k = Some task \<and> id_task task = k \<and>
    (b = EsmBundle \<or> gt0 (sub (getTime t) (Num now))) \<longrightarrow>
      fst (rescheduleTask b now k t st) = Return True \<and>
      map_of (tasks (snd (rescheduleTask b now k t st))) k =
        Some (task\<lparr>targetTime := t, timeoutId := Some (nextTimer st)\<rparr>) \<and>
      map_option id_task (map_of (tasks (snd (rescheduleTask b now k t st))) k) =
        Some (id_task task) \<and>
      map_option callback (map_of (tasks (snd (rescheduleTask b now k t st))) k) =
        Some (callback task) \<and>
      (\<forall>j. j \<noteq> k \<longrightarrow>
         map_of (tasks (snd (rescheduleTask b now k t st))) j = map_of (tasks st) j) \<and>
      map fst (tasks (snd (rescheduleTask b now k t st))) = map fst (tasks st) \<and>
      nextTaskId (snd (rescheduleTask b now k t st)) = nextTaskId st \<and>
      calls (snd (rescheduleTask b now k t st)) = calls st \<and>
      (\<forall>x \<in> set (timers st). Some (handle x) \<noteq> timeoutId task \<longrightarrow>
         x \<in> set (timers (snd (rescheduleTask b now k t st)))))"
proof -
  have unknown: "snd (rescheduleTask b now k t st) = st"
    if "fst (rescheduleTask b now k t st) = Return False"
  proof (cases "map_of (tasks st) k")
    case None
    then show ?thesis by (simp add: rescheduleTask_absent)
  next
    case (Some task')
    from rescheduleTask_known [OF this] that show ?thesis by simp
  qed
  have known: "fst (rescheduleTask b now k t st) = Return True \<and>
      map_of (tasks (snd (rescheduleTask b now k t st))) k =
        Some (task\<lparr>targetTime := t, timeoutId := Some (nextTimer st)\<rparr>) \<and>
      map_option id_task (map_of (tasks (snd (rescheduleTask b now k t st))) k) =
        Some (id_task task) \<and>
      map_option callback (map_of (tasks (snd (rescheduleTask b now k t st))) k) =
        Some (callback task) \<and>
      (\<forall>j. j \<noteq> k \<longrightarrow>
         map_of (tasks (snd (rescheduleTask b now k t st))) j = map_of (tasks st) j) \<and>
      map fst (tasks (snd (rescheduleTask b now k t st))) = map fst (tasks st) \<and>
      nextTaskId (snd (rescheduleTask b now k t st)) = nextTaskId st \<and>
      calls (snd (rescheduleTask b now k t st)) = calls st \<and>
      (\<forall>x \<in> set (timers st). Some (handle x) \<noteq> timeoutId task \<longrightarrow>
         x \<in> set (timers (snd (rescheduleTask b now k t st))))"
    if p: "map_of (tasks st) k = Some task" and i: "id_task task = k"
      and armed: "b = EsmBundle \<or> gt0 (sub (getTime t) (Num now))"
  proof -
    have eq: "rescheduleTask b now k t st = rescheduleTask EsmBundle now k t st"
      using armed by (cases b) (simp_all add: rescheduleTask_src_armed)
    have rest: "fst (rescheduleTask EsmBundle now k t st) = Return True"
      "nextTaskId (snd (rescheduleTask EsmBundle now k t st)) = nextTaskId st"
      "calls (snd (rescheduleTask EsmBundle now k t st)) = calls st"
      "\<forall>x \<in> set (timers st). Some (handle x) \<noteq> timeoutId task \<longrightarrow>
         x \<in> set (timers (snd (rescheduleTask EsmBundle now k t st)))"
      using p by (simp_all add: rescheduleTask_esm_eq)
    show ?thesis
      unfolding eq using rest
      by (simp add: rescheduleTask_esm_tasks [OF p i])
  qed
  show ?thesis
    using unknown known by blast
qed

theorem reschedule_frame_witness:
  "fst (rescheduleTask EsmBundle 0 999 (Date 7)
     \<lparr>tasks = [(1, \<lparr>id_task = 1, targetTime = Date 100, callback = Returns, timeoutId = Some 1\<rparr>),
               (2, \<lparr>id_task = 2, targetTime = Date 200, callback = Throws, timeoutId = Some 2\<rparr>)],
      nextTaskId = 3,
      timers = [\<lparr>handle = 1, fires = 1, delay = Num 100\<rparr>, \<lparr>handle = 2, fires = 2, delay = Num 200\<rparr>],
      nextTimer = 3, calls = []\<rparr>) = Return False \<and>
   map_of (tasks
     \<lparr>tasks = [(1, \<lparr>id_task = 1, targetTime = Date 100, callback = Returns, timeoutId = Some 1\<rparr>),
               (2, \<lparr>id_task = 2, targetTime = Date 200, callback = Throws, timeoutId = Some 2\<rparr>)],
      nextTaskId = 3,
      timers = [\<lparr>handle = 1, fires = 1, delay = Num 100\<rparr>, \<lparr>handle = 2, fires = 2, delay = Num 200\<rparr>],
      nextTimer = 3, calls = []\<rparr>) 1 =
     Some \<lparr>id_task = 1, targetTime = Date 100, callback = Returns, timeoutId = Some 1\<rparr> \<and>
   rescheduleTask EsmBundle 50 1 (Date 10)
     \<lparr>tasks = [(1, \<lparr>id_task = 1, targetTime = Date 100, callback = Returns, timeoutId = Some 1\<rparr>),
               (2, \<lparr>id_task = 2, targetTime = Date 200, callback = Throws, timeoutId = Some 2\<rparr>)],
      nextTaskId = 3,
      timers = [\<lparr>handle = 1, fires = 1, delay = Num 100\<rparr>, \<lparr>handle = 2, fires = 2, delay = Num 200\<rparr>],
      nextTimer = 3, calls = []\<rparr> =
     (Return True,
      \<lparr>tasks = [(1, \<lparr>id_task = 1, targetTime = Date 10, callback = Returns, timeoutId = Some 3\<rparr>),
               (2, \<lparr>id_task = 2, targetTime = Date 200, callback = Throws, timeoutId = Some 2\<rparr>)],
      nextTaskId = 3,
      timers = [\<lparr>handle = 2, fires = 2, delay = Num 200\<rparr>, \<lparr>handle = 3, fires = 1, delay = Num 0\<rparr>],
      nextTimer = 4, calls = []\<rparr>) \<and>
   snd (rescheduleTask EsmBundle 0 999 (Date 7)
     \<lparr>tasks = [(1, \<lparr>id_task = 1, targetTime = Date 100, callback = Returns, timeoutId = Some 1\<rparr>),
               (2, \<lparr>id_task = 2, targetTime = Date 200, callback = Throws, timeoutId = Some 2\<rparr>)],
      nextTaskId = 3,
      timers = [\<lparr>handle = 1, fires = 1, delay = Num 100\<rparr>, \<lparr>handle = 2, fires = 2, delay = Num 200\<rparr>],
      nextTimer = 3, calls = []\<rparr>) =
     \<lparr>tasks = [(1, \<lparr>id_task = 1, targetTime = Date 100, callback = Returns, timeoutId = Some 1\<rparr>),
               (2, \<lparr>id_task = 2, targetTime = Date 200, callback = Throws, timeoutId = Some 2\<rparr>)],
      nextTaskId = 3,
      timers = [\<lparr>handle = 1, fires = 1, delay = Num 100\<rparr>, \<lparr>handle = 2, fires = 2, delay = Num 200\<rparr>],
      nextTimer = 3, calls = []\<rparr> \<and>
   map fst (tasks (snd (rescheduleTask EsmBundle 50 1 (Date 10)
     \<lparr>tasks = [(1, \<lparr>id_task = 1, targetTime = Date 100, callback = Returns, timeoutId = Some 1\<rparr>),
               (2, \<lparr>id_task = 2, targetTime = Date 200, callback = Throws, timeoutId = Some 2\<rparr>)],
      nextTaskId = 3,
      timers = [\<lparr>handle = 1, fires = 1, delay = Num 100\<rparr>, \<lparr>handle = 2, fires = 2, delay = Num 200\<rparr>],
      nextTimer = 3, calls = []\<rparr>))) = [1, 2]"
proof -
  have a: "fst (rescheduleTask EsmBundle 0 999 (Date 7)
     \<lparr>tasks = [(1, \<lparr>id_task = 1, targetTime = Date 100, callback = Returns, timeoutId = Some 1\<rparr>),
               (2, \<lparr>id_task = 2, targetTime = Date 200, callback = Throws, timeoutId = Some 2\<rparr>)],
      nextTaskId = 3,
      timers = [\<lparr>handle = 1, fires = 1, delay = Num 100\<rparr>, \<lparr>handle = 2, fires = 2, delay = Num 200\<rparr>],
      nextTimer = 3, calls = []\<rparr>) = Return False"
    by code_simp
  have b: "rescheduleTask EsmBundle 50 1 (Date 10)
     \<lparr>tasks = [(1, \<lparr>id_task = 1, targetTime = Date 100, callback = Returns, timeoutId = Some 1\<rparr>),
               (2, \<lparr>id_task = 2, targetTime = Date 200, callback = Throws, timeoutId = Some 2\<rparr>)],
      nextTaskId = 3,
      timers = [\<lparr>handle = 1, fires = 1, delay = Num 100\<rparr>, \<lparr>handle = 2, fires = 2, delay = Num 200\<rparr>],
      nextTimer = 3, calls = []\<rparr> =
     (Return True,
      \<lparr>tasks = [(1, \<lparr>id_task = 1, targetTime = Date 10, callback = Returns, timeoutId = Some 3\<rparr>),
               (2, \<lparr>id_task = 2, targetTime = Date 200, callback = Throws, timeoutId = Some 2\<rparr>)],
      nextTaskId = 3,
      timers = [\<lparr>handle = 2, fires = 2, delay = Num 200\<rparr>, \<lparr>handle = 3, fires = 1, delay = Num 0\<rparr>],
      nextTimer = 4, calls = []\<rparr>)"
    by code_simp
  show ?thesis
    using a
      reschedule_frame [of EsmBundle 0 999 "Date 7"
        "\<lparr>tasks = [(1, \<lparr>id_task = 1, targetTime = Date 100, callback = Returns, timeoutId = Some 1\<rparr>),
               (2, \<lparr>id_task = 2, targetTime = Date 200, callback = Throws, timeoutId = Some 2\<rparr>)],
          nextTaskId = 3,
          timers = [\<lparr>handle = 1, fires = 1, delay = Num 100\<rparr>, \<lparr>handle = 2, fires = 2, delay = Num 200\<rparr>],
          nextTimer = 3, calls = []\<rparr>"
        "\<lparr>id_task = 1, targetTime = Date 100, callback = Returns, timeoutId = Some 1\<rparr>"]
      reschedule_frame [of EsmBundle 50 1 "Date 10"
        "\<lparr>tasks = [(1, \<lparr>id_task = 1, targetTime = Date 100, callback = Returns, timeoutId = Some 1\<rparr>),
               (2, \<lparr>id_task = 2, targetTime = Date 200, callback = Throws, timeoutId = Some 2\<rparr>)],
          nextTaskId = 3,
          timers = [\<lparr>handle = 1, fires = 1, delay = Num 100\<rparr>, \<lparr>handle = 2, fires = 2, delay = Num 200\<rparr>],
          nextTimer = 3, calls = []\<rparr>"
        "\<lparr>id_task = 1, targetTime = Date 100, callback = Returns, timeoutId = Some 1\<rparr>"]
    by (simp only: b) simp
qed

text \<open>
  C10 as stated fails on \<^verbatim>\<open>src/task.js\<close>: with tasks 1 and 2 pending, a reschedule of
  task 1 to a past time answers true, and the keys of the map and the log of invocations
  have changed.
\<close>

theorem reschedule_changes_keys_counterexample:
  "fst (rescheduleTask TaskJs 50 1 (Date 10)
     (snd (run TaskJs [Create 0 (Date 100) Returns, Create 0 (Date 200) Returns] constructor))) =
     Return True \<and>
   map fst (tasks
     (snd (run TaskJs [Create 0 (Date 100) Returns, Create 0 (Date 200) Returns] constructor))) =
     [1, 2] \<and>
   map fst (tasks (snd (rescheduleTask TaskJs 50 1 (Date 10)
     (snd (run TaskJs [Create 0 (Date 100) Returns, Create 0 (Date 200) Returns] constructor))))) =
     [2] \<and>
   map callee (calls (snd (rescheduleTask TaskJs 50 1 (Date 10)
     (snd (run TaskJs [Create 0 (Date 100) Returns, Create 0 (Date 200) Returns] constructor))))) =
     [1]"
  by code_simp

end
